theory Spec2Isabelle
  imports Complex_Main "HOL-Library.Log_Nat"
begin

section \<open>Outcomes of a call\<close>

text \<open>
  A Go function of this repository either returns its value, returns a non-nil
  \<^verbatim>\<open>error\<close>, or panics at run time (an index out of range). The last two are kept
  apart: a returned error is handled by the caller, a panic unwinds the program.
\<close>

datatype failure = Error string | Panic string

type_synonym 'a result = "failure + 'a"

section \<open>Library functions on strings\<close>

text \<open>
  Strings are byte strings (the UTF-8 encoding of their text). \<^verbatim>\<open>strconv.Atoi\<close> accepts an optional sign followed by at
  least one decimal digit and nothing else, and fails when the value does not fit the
  64-bit \<^verbatim>\<open>int\<close>.
\<close>

definition isDigit :: "char \<Rightarrow> bool" where
  "isDigit c = (48 \<le> (of_char c :: nat) \<and> (of_char c :: nat) \<le> 57)"

definition digitVal :: "char \<Rightarrow> int" where
  "digitVal c = int (of_char c) - 48"

definition digitsVal :: "string \<Rightarrow> int" where
  "digitsVal ds = foldl (\<lambda>n c. n * 10 + digitVal c) 0 ds"

definition minInt64 :: int where
  "minInt64 = - 9223372036854775808"

definition maxInt64 :: int where
  "maxInt64 = 9223372036854775807"

definition Atoi :: "string \<Rightarrow> int option" where
  "Atoi s =
     (case s of
        [] \<Rightarrow> None
      | c # cs \<Rightarrow>
          (let neg = (c = CHR ''-'');
               ds = (if c = CHR ''-'' \<or> c = CHR ''+'' then cs else s)
           in if ds = [] \<or> \<not> list_all isDigit ds then None
              else (let v = (if neg then - digitsVal ds else digitsVal ds)
                    in if minInt64 \<le> v \<and> v \<le> maxInt64 then Some v else None)))"

text \<open>
  \<^verbatim>\<open>strings.TrimSpace\<close> removes the leading and the trailing white space of a string
  as Unicode defines it (\<^verbatim>\<open>unicode.IsSpace\<close>): the characters U+0009 to U+000D, U+0020,
  U+0085, U+00A0, U+1680, U+2000 to U+200A, U+2028, U+2029, U+202F, U+205F and U+3000.
  The library decodes the UTF-8 bytes from the front and from the back, one character at
  a time, and a run of bytes that is no valid encoding counts as a character that is not
  white space. Decoding from the front yields a white-space character exactly when the
  string starts with the encoding of one, and decoding from the back exactly when it
  ends with one; so the function strips these encodings from both ends.
\<close>

definition spaceEncodings :: "string list" where
  "spaceEncodings =
     [[CHR 0x09], [CHR 0x0A], [CHR 0x0B], [CHR 0x0C], [CHR 0x0D], [CHR 0x20],
      [CHR 0xC2, CHR 0x85], [CHR 0xC2, CHR 0xA0],
      [CHR 0xE1, CHR 0x9A, CHR 0x80],
      [CHR 0xE2, CHR 0x80, CHR 0x80], [CHR 0xE2, CHR 0x80, CHR 0x81],
      [CHR 0xE2, CHR 0x80, CHR 0x82], [CHR 0xE2, CHR 0x80, CHR 0x83],
      [CHR 0xE2, CHR 0x80, CHR 0x84], [CHR 0xE2, CHR 0x80, CHR 0x85],
      [CHR 0xE2, CHR 0x80, CHR 0x86], [CHR 0xE2, CHR 0x80, CHR 0x87],
      [CHR 0xE2, CHR 0x80, CHR 0x88], [CHR 0xE2, CHR 0x80, CHR 0x89],
      [CHR 0xE2, CHR 0x80, CHR 0x8A],
      [CHR 0xE2, CHR 0x80, CHR 0xA8], [CHR 0xE2, CHR 0x80, CHR 0xA9],
      [CHR 0xE2, CHR 0x80, CHR 0xAF], [CHR 0xE2, CHR 0x81, CHR 0x9F],
      [CHR 0xE3, CHR 0x80, CHR 0x80]]"

function trimLeading :: "string list \<Rightarrow> string \<Rightarrow> string" where
  "trimLeading codes s =
     (case find (\<lambda>e. e \<noteq> [] \<and> take (length e) s = e) codes of
        None \<Rightarrow> s
      | Some e \<Rightarrow> trimLeading codes (drop (length e) s))"
  by pat_completeness auto

termination
proof (relation "measure (\<lambda>(codes, s). length s)")
  fix codes :: "string list" and s e :: string
  assume "find (\<lambda>e. e \<noteq> [] \<and> take (length e) s = e) codes = Some e"
  then have e: "e \<noteq> []" "take (length e) s = e"
    by (auto simp: find_Some_iff)
  from e(2) have "length (take (length e) s) = length e"
    by simp
  then have "length e \<le> length s"
    by simp
  with e(1) show "((codes, drop (length e) s), (codes, s)) \<in> measure (\<lambda>(codes, s). length s)"
    by (cases e) auto
qed simp

declare trimLeading.simps [simp del]

definition TrimSpace :: "string \<Rightarrow> string" where
  "TrimSpace s =
     rev (trimLeading (map rev spaceEncodings) (rev (trimLeading spaceEncodings s)))"

text \<open>
  \<^verbatim>\<open>strings.Split(s, "/")\<close>: the substrings between the separators, one more than
  there are separators, so never an empty list.
\<close>

fun splitOn :: "char \<Rightarrow> string \<Rightarrow> string list" where
  "splitOn sep [] = [[]]"
| "splitOn sep (c # cs) =
     (if c = sep then [] # splitOn sep cs
      else (case splitOn sep cs of
              [] \<Rightarrow> [[c]]
            | p # ps \<Rightarrow> (c # p) # ps))"


section \<open>Machine numbers\<close>

text \<open>
  Go's \<^verbatim>\<open>int\<close>, \<^verbatim>\<open>int64\<close> and \<^verbatim>\<open>time.Duration\<close> are 64-bit two's complement: a product
  that leaves the range wraps around. Integer division and remainder truncate toward zero.
\<close>

definition wrap64 :: "int \<Rightarrow> int" where
  "wrap64 x = (x + 9223372036854775808) mod 18446744073709551616 - 9223372036854775808"

definition quotT :: "int \<Rightarrow> int \<Rightarrow> int" where
  "quotT a b = sgn a * sgn b * (\<bar>a\<bar> div \<bar>b\<bar>)"

definition remT :: "int \<Rightarrow> int \<Rightarrow> int" where
  "remT a b = a - b * quotT a b"

text \<open>
  A \<^verbatim>\<open>float64\<close> is represented by the rational number it denotes (every finite
  binary64 value is one); infinities and NaN do not arise from the JSON numbers this
  program reads. \<open>fl64\<close> is the rounding of IEEE 754 binary64 arithmetic: to the nearest
  number with a 53-bit significand (exponent of the last place at least \<open>-1074\<close>), ties
  to the even significand. Every float operation of the program is the exact operation
  followed by \<open>fl64\<close>. Overflow to infinity (beyond \<open>2^1024\<close>) is not modelled.
\<close>

type_synonym float64 = rat

definition ilog2 :: "rat \<Rightarrow> int" where
  "ilog2 x =
     (case quotient_of x of (a, b) \<Rightarrow>
        (let k = bitlen a - bitlen b in if 2 powi k \<le> x then k else k - 1))"

definition roundEven :: "rat \<Rightarrow> int" where
  "roundEven y =
     (let f = \<lfloor>y\<rfloor>; r = y - of_int f
      in if r < 1 / 2 then f else if 1 / 2 < r then f + 1 else if even f then f else f + 1)"

definition fl64 :: "rat \<Rightarrow> float64" where
  "fl64 x =
     (if x = 0 then 0
      else (let q = max (ilog2 \<bar>x\<bar> - 52) (- 1074)
            in of_int (roundEven (x / 2 powi q)) * 2 powi q))"

text \<open>
  The conversion \<^verbatim>\<open>int64(f)\<close> and \<^verbatim>\<open>time.Duration(f)\<close> of a float discards the fraction
  (truncation toward zero). For a value outside the range of \<^verbatim>\<open>int64\<close> the language
  leaves the result to the implementation; amd64 yields the least \<^verbatim>\<open>int64\<close>.
\<close>

definition truncRat :: "rat \<Rightarrow> int" where
  "truncRat x = (if 0 \<le> x then \<lfloor>x\<rfloor> else \<lceil>x\<rceil>)"

definition toInt64 :: "float64 \<Rightarrow> int" where
  "toInt64 x =
     (let t = truncRat x
      in if - 9223372036854775808 \<le> t \<and> t \<le> 9223372036854775807 then t
         else - 9223372036854775808)"

type_synonym Duration = int

definition Millisecond :: Duration where
  "Millisecond = 1000000"

definition Second :: Duration where
  "Second = 1000000000"

text \<open>
  \<^verbatim>\<open>Duration.Seconds()\<close> of the standard library:
  \<^verbatim>\<open>sec := d / Second; nsec := d % Second; return float64(sec) + float64(nsec)/1e9\<close>.
\<close>

definition Seconds :: "Duration \<Rightarrow> float64" where
  "Seconds d =
     fl64 (fl64 (of_int (quotT d Second)) + fl64 (fl64 (of_int (remT d Second)) / 1000000000))"

text \<open>
  The expression \<^verbatim>\<open>time.Duration(rd[0]*1000) * time.Millisecond\<close> that \<^verbatim>\<open>fillMainData\<close>
  applies to the elapsed seconds of every time-series pair, of all four kinds: a
  float64 product, converted to an integer, times the 64-bit constant \<open>10^6\<close>.
\<close>

definition elapsedDuration :: "float64 \<Rightarrow> Duration" where
  "elapsedDuration s = wrap64 (toInt64 (fl64 (s * 1000)) * Millisecond)"

text \<open>The range of \<^verbatim>\<open>int64\<close>.\<close>

definition int64 :: "int \<Rightarrow> bool" where
  "int64 n = (- 9223372036854775808 \<le> n \<and> n \<le> 9223372036854775807)"

section \<open>Time\<close>

text \<open>
  A \<^verbatim>\<open>time.Time\<close> is an instant together with a location. It is kept here in civil
  form: the calendar date and the nanoseconds since midnight as read in the value's own
  location, and the offset of that location from UTC (in seconds, east positive) at
  that instant. \<^verbatim>\<open>t.Year()\<close>, \<^verbatim>\<open>t.Month()\<close> and \<^verbatim>\<open>t.Day()\<close> are the fields.
\<close>

record Time =
  Year :: int
  Month :: int
  Day :: int
  Nanos :: int
  Offset :: int

text \<open>The zero value of \<^verbatim>\<open>time.Time\<close>: January 1 of year 1, 00:00 UTC.\<close>

definition zeroTime :: Time where
  "zeroTime = \<lparr>Year = 1, Month = 1, Day = 1, Nanos = 0, Offset = 0\<rparr>"

subsection \<open>The proleptic Gregorian calendar\<close>

definition nsPerDay :: int where
  "nsPerDay = 86400000000000"

definition isLeap :: "int \<Rightarrow> bool" where
  "isLeap y = (y mod 4 = 0 \<and> (y mod 100 \<noteq> 0 \<or> y mod 400 = 0))"

definition daysIn :: "int \<Rightarrow> int \<Rightarrow> int" where
  "daysIn y m =
     (if m = 2 then (if isLeap y then 29 else 28)
      else if m = 4 \<or> m = 6 \<or> m = 9 \<or> m = 11 then 30 else 31)"

definition daysBefore :: "int \<Rightarrow> int \<Rightarrow> int" where
  "daysBefore y m =
     (if m \<le> 1 then 0 else if m = 2 then 31
      else (if isLeap y then 1 else 0) +
        (if m = 3 then 59 else if m = 4 then 90 else if m = 5 then 120
         else if m = 6 then 151 else if m = 7 then 181 else if m = 8 then 212
         else if m = 9 then 243 else if m = 10 then 273 else if m = 11 then 304
         else 334))"

definition daysBeforeYear :: "int \<Rightarrow> int" where
  "daysBeforeYear y = 365 * (y - 1970) + ((y - 1) div 4 - (y - 1) div 100 + (y - 1) div 400) - 477"

text \<open>
  \<^verbatim>\<open>time.Date\<close> accepts a month outside 1..12 and a day outside the month and
  normalises them: the month first (carrying into the year), then the day (carrying
  into the months).
\<close>

definition normMonth :: "int \<Rightarrow> int \<Rightarrow> int \<times> int" where
  "normMonth y m = (y + (m - 1) div 12, (m - 1) mod 12 + 1)"

text \<open>The number of days from 1970-01-01 to the given date (day counted linearly).\<close>

definition daysSinceEpoch :: "int \<Rightarrow> int \<Rightarrow> int \<Rightarrow> int" where
  "daysSinceEpoch y m d =
     (case normMonth y m of (y', m') \<Rightarrow> daysBeforeYear y' + daysBefore y' m' + d - 1)"


function normDay :: "int \<Rightarrow> int \<Rightarrow> int \<Rightarrow> int \<times> int \<times> int" where
  "normDay y m d =
     (if d < 1 then
        (case normMonth y (m - 1) of (y', m') \<Rightarrow> normDay y' m' (d + daysIn y' m'))
      else if d > daysIn y m then
        (case normMonth y (m + 1) of (y', m') \<Rightarrow> normDay y' m' (d - daysIn y m))
      else (y, m, d))"
  by pat_completeness auto

lemma daysIn_bounds: "28 \<le> daysIn y m \<and> daysIn y m \<le> 31"
  by (simp add: daysIn_def)

termination normDay
  by (relation "measure (\<lambda>(y, m, d). nat (if d < 1 then 32 - d else d))")
     (auto simp: daysIn_def)


declare normDay.simps [simp del]

subsection \<open>Facts about the calendar that the termination proofs need\<close>

lemma normMonth_range: "normMonth y m = (y', m') \<Longrightarrow> 1 \<le> m' \<and> m' \<le> 12"
  by (auto simp: normMonth_def)

lemma normMonth_idem: "1 \<le> m \<Longrightarrow> m \<le> 12 \<Longrightarrow> normMonth y m = (y, m)"
  by (auto simp: normMonth_def)

lemma div_step:
  fixes y k :: int
  assumes k: "0 < k"
  shows "y div k - (y - 1) div k = (if y mod k = 0 then 1 else 0)"
proof (cases "y mod k = 0")
  case True
  then obtain q where q: "y = k * q" by auto
  have "(y - 1) div k = q - 1"
    by (rule int_div_pos_eq[where r = "k - 1"]) (use q k in \<open>auto simp: algebra_simps\<close>)
  moreover have "y div k = q" using q k by simp
  ultimately show ?thesis using True by simp
next
  case False
  have m: "0 \<le> y mod k" "y mod k < k" using k by auto
  have "(y - 1) div k = y div k"
    by (rule int_div_pos_eq[where r = "y mod k - 1"]) (use m False in \<open>auto simp: algebra_simps\<close>)
  then show ?thesis using False by simp
qed

lemma daysBeforeYear_Suc:
  "daysBeforeYear (y + 1) = daysBeforeYear y + 365 + (if isLeap y then 1 else 0)"
proof -
  define d4 :: int where "d4 = (if y mod 4 = 0 then 1 else 0)"
  define d100 :: int where "d100 = (if y mod 100 = 0 then 1 else 0)"
  define d400 :: int where "d400 = (if y mod 400 = 0 then 1 else 0)"
  have a: "y mod 100 = 0 \<Longrightarrow> y mod 4 = 0"
    using mod_mod_cancel[of 4 100 y] by simp
  have b: "y mod 400 = 0 \<Longrightarrow> y mod 100 = 0"
    using mod_mod_cancel[of 100 400 y] by simp
  have s4: "y div 4 = (y - 1) div 4 + d4"
    using div_step[of 4 y] by (simp add: d4_def)
  have s100: "y div 100 = (y - 1) div 100 + d100"
    using div_step[of 100 y] by (simp add: d100_def)
  have s400: "y div 400 = (y - 1) div 400 + d400"
    using div_step[of 400 y] by (simp add: d400_def)
  have e: "daysBeforeYear (y + 1) = daysBeforeYear y + 365 + d4 - d100 + d400"
    by (simp add: daysBeforeYear_def s4 s100 s400)
  have "d4 - d100 + d400 = (if isLeap y then 1 else 0)"
  proof (cases "y mod 400 = 0")
    case True
    with a b show ?thesis by (simp add: isLeap_def d4_def d100_def d400_def)
  next
    case False
    show ?thesis
    proof (cases "y mod 100 = 0")
      case True
      with a False show ?thesis by (simp add: isLeap_def d4_def d100_def d400_def)
    next
      case f: False
      with False show ?thesis by (simp add: isLeap_def d4_def d100_def d400_def)
    qed
  qed
  with e show ?thesis by simp
qed

lemma daysBefore_Suc:
  assumes "1 \<le> m" "m < 12"
  shows "daysBefore y (m + 1) = daysBefore y m + daysIn y m"
proof -
  from assms have "m = 1 \<or> m = 2 \<or> m = 3 \<or> m = 4 \<or> m = 5 \<or> m = 6 \<or> m = 7 \<or> m = 8
      \<or> m = 9 \<or> m = 10 \<or> m = 11"
    by arith
  then show ?thesis
    by (elim disjE) (simp_all add: daysBefore_def daysIn_def)
qed

lemma daysBefore_12: "daysBefore y 12 = 334 + (if isLeap y then 1 else 0)"
  by (simp add: daysBefore_def)


lemma next_month_divmod:
  fixes m :: int
  shows "m div 12 = (if (m - 1) mod 12 = 11 then (m - 1) div 12 + 1 else (m - 1) div 12)"
    and "m mod 12 = (if (m - 1) mod 12 = 11 then 0 else (m - 1) mod 12 + 1)"
proof -
  define q r where "q = (m - 1) div 12" and "r = (m - 1) mod 12"
  have m: "m = 12 * q + (r + 1)" and r: "0 \<le> r" "r < 12"
    by (simp_all add: q_def r_def)
  show "m div 12 = (if (m - 1) mod 12 = 11 then (m - 1) div 12 + 1 else (m - 1) div 12)"
  proof (cases "r = 11")
    case True
    have "m div 12 = q + 1"
      by (rule int_div_pos_eq[where r = 0]) (use m True in simp_all)
    with True show ?thesis by (simp add: q_def r_def)
  next
    case False
    have "m div 12 = q"
      by (rule int_div_pos_eq[where r = "r + 1"]) (use m r False in simp_all)
    with False show ?thesis by (simp add: q_def r_def)
  qed
  show "m mod 12 = (if (m - 1) mod 12 = 11 then 0 else (m - 1) mod 12 + 1)"
  proof (cases "r = 11")
    case True
    have "m mod 12 = 0"
      by (rule int_mod_pos_eq[where q = "q + 1"]) (use m True in simp_all)
    with True show ?thesis by (simp add: q_def r_def)
  next
    case False
    have "m mod 12 = r + 1"
      by (rule int_mod_pos_eq[where q = q]) (use m r False in simp_all)
    with False show ?thesis by (simp add: q_def r_def)
  qed
qed

lemma normMonth_next:
  "normMonth y (m + 1) =
     (case normMonth y m of (y', m') \<Rightarrow> if m' = 12 then (y' + 1, 1) else (y', m' + 1))"
  using next_month_divmod[of m] by (simp add: normMonth_def)

lemma daysSinceEpoch_next_month:
  "daysSinceEpoch y (m + 1) d =
     daysSinceEpoch y m d + (case normMonth y m of (y', m') \<Rightarrow> daysIn y' m')"
proof -
  obtain y' m' where n: "normMonth y m = (y', m')" by force
  from normMonth_range[OF n] have r: "1 \<le> m'" "m' \<le> 12" by simp_all
  show ?thesis
  proof (cases "m' = 12")
    case True
    with n have b: "normMonth y (m + 1) = (y' + 1, 1)"
      by (simp add: normMonth_next)
    show ?thesis
      using True
      by (simp add: daysSinceEpoch_def n b daysBeforeYear_Suc daysBefore_12 daysIn_def)
         (simp add: daysBefore_def)
  next
    case False
    with n have b: "normMonth y (m + 1) = (y', m' + 1)"
      by (simp add: normMonth_next)
    from False r have r': "m' < 12" by simp
    show ?thesis
      by (simp add: daysSinceEpoch_def n b daysBefore_Suc[OF r(1) r'])
  qed
qed

lemma daysSinceEpoch_day: "daysSinceEpoch y m d = daysSinceEpoch y m 1 + d - 1"
  by (simp add: daysSinceEpoch_def split: prod.splits)

lemma daysSinceEpoch_normMonth:
  "normMonth y m = (y', m') \<Longrightarrow> daysSinceEpoch y' m' d = daysSinceEpoch y m d"
  by (auto simp: daysSinceEpoch_def normMonth_def)

lemma daysSinceEpoch_normDay:
  "1 \<le> m \<Longrightarrow> m \<le> 12 \<Longrightarrow> normDay y m d = (y', m', d') \<Longrightarrow>
     daysSinceEpoch y' m' d' = daysSinceEpoch y m d"
proof (induction y m d rule: normDay.induct)
  case (1 y m d)
  show ?case
  proof (cases "d < 1")
    case True
    obtain y1 m1 where n: "normMonth y (m - 1) = (y1, m1)" by force
    from normMonth_range[OF n] have r: "1 \<le> m1" "m1 \<le> 12" by simp_all
    from True n "1.prems" have "normDay y1 m1 (d + daysIn y1 m1) = (y', m', d')"
      by (simp add: normDay.simps[of y m d])
    from "1.IH"(1)[OF True n[symmetric] r this]
    have "daysSinceEpoch y' m' d' = daysSinceEpoch y1 m1 (d + daysIn y1 m1)" .
    also have "\<dots> = daysSinceEpoch y (m - 1) (d + daysIn y1 m1)"
      by (rule daysSinceEpoch_normMonth[OF n])
    also have "\<dots> = daysSinceEpoch y m d"
      using daysSinceEpoch_next_month[of y "m - 1" d] n
      by (simp add: daysSinceEpoch_day[of y "m - 1" "d + daysIn y1 m1"]
                    daysSinceEpoch_day[of y "m - 1" d])
    finally show ?thesis .
  next
    case False
    show ?thesis
    proof (cases "d > daysIn y m")
      case True
      obtain y1 m1 where n: "normMonth y (m + 1) = (y1, m1)" by force
      from normMonth_range[OF n] have r: "1 \<le> m1" "m1 \<le> 12" by simp_all
      have i: "normMonth y m = (y, m)"
        using "1.prems"(1,2) by (rule normMonth_idem)
      from False True n "1.prems" have "normDay y1 m1 (d - daysIn y m) = (y', m', d')"
        by (simp add: normDay.simps[of y m d])
      from "1.IH"(2)[OF False True n[symmetric] r this]
      have "daysSinceEpoch y' m' d' = daysSinceEpoch y1 m1 (d - daysIn y m)" .
      also have "\<dots> = daysSinceEpoch y (m + 1) (d - daysIn y m)"
        by (rule daysSinceEpoch_normMonth[OF n])
      also have "\<dots> = daysSinceEpoch y m d"
        using daysSinceEpoch_next_month[of y m d] i
        by (simp add: daysSinceEpoch_day[of y "m + 1" "d - daysIn y m"]
                      daysSinceEpoch_day[of y "m + 1" d])
      finally show ?thesis .
    next
      case f: False
      with False "1.prems" show ?thesis
        by (simp add: normDay.simps[of y m d])
    qed
  qed
qed

lemma normDay_id:
  "1 \<le> d \<Longrightarrow> d \<le> daysIn y m \<Longrightarrow> normDay y m d = (y, m, d)"
  by (simp add: normDay.simps[of y m d])

subsection \<open>Operations of package time\<close>

text \<open>
  \<open>Date y mo d tod off\<close> is \<^verbatim>\<open>time.Date(y, mo, d, hour, min, sec, nsec, loc)\<close>: \<open>tod\<close>
  stands for the time of day the four arguments \<^verbatim>\<open>hour, min, sec, nsec\<close> add up to, in
  nanoseconds (they are all 0 at the call sites of this repository), and \<open>off\<close> for the
  offset of \<^verbatim>\<open>loc\<close> (0 for \<^verbatim>\<open>time.UTC\<close>).
\<close>

definition Date :: "int \<Rightarrow> int \<Rightarrow> int \<Rightarrow> int \<Rightarrow> int \<Rightarrow> Time" where
  "Date y mo d tod off =
     (case normMonth y mo of (y1, m1) \<Rightarrow>
        (case normDay y1 m1 (d + tod div nsPerDay) of (y2, m2, d2) \<Rightarrow>
           \<lparr>Year = y2, Month = m2, Day = d2, Nanos = tod mod nsPerDay, Offset = off\<rparr>))"

text \<open>The instant of a time: nanoseconds since 1970-01-01 00:00 UTC.\<close>

definition unixNano :: "Time \<Rightarrow> int" where
  "unixNano t =
     (daysSinceEpoch (Year t) (Month t) (Day t) * 86400 - Offset t) * 1000000000 + Nanos t"

text \<open>\<^verbatim>\<open>t.Before(u)\<close> and \<^verbatim>\<open>t.After(u)\<close> compare instants, whatever the locations.\<close>

definition Before :: "Time \<Rightarrow> Time \<Rightarrow> bool" where
  "Before t u = (unixNano t < unixNano u)"

definition After :: "Time \<Rightarrow> Time \<Rightarrow> bool" where
  "After t u = (unixNano t > unixNano u)"

definition AddDate :: "Time \<Rightarrow> int \<Rightarrow> int \<Rightarrow> int \<Rightarrow> Time" where
  "AddDate t years months days =
     Date (Year t + years) (Month t + months) (Day t + days) (Nanos t) (Offset t)"

lemma unixNano_Date:
  "unixNano (Date y mo d tod off) = (daysSinceEpoch y mo d * 86400 - off) * 1000000000 + tod"
proof -
  obtain y1 m1 where n: "normMonth y mo = (y1, m1)" by force
  obtain y2 m2 d2 where nd: "normDay y1 m1 (d + tod div nsPerDay) = (y2, m2, d2)"
    by (metis prod_cases3)
  from normMonth_range[OF n] have r: "1 \<le> m1" "m1 \<le> 12" by simp_all
  have "daysSinceEpoch y2 m2 d2 = daysSinceEpoch y1 m1 (d + tod div nsPerDay)"
    by (rule daysSinceEpoch_normDay[OF r nd])
  also have "\<dots> = daysSinceEpoch y mo (d + tod div nsPerDay)"
    by (rule daysSinceEpoch_normMonth[OF n])
  also have "\<dots> = daysSinceEpoch y mo d + tod div nsPerDay"
    by (simp add: daysSinceEpoch_day[of y mo "d + tod div nsPerDay"]
                  daysSinceEpoch_day[of y mo d])
  finally have e: "daysSinceEpoch y2 m2 d2 = daysSinceEpoch y mo d + tod div nsPerDay" .
  have "tod div nsPerDay * nsPerDay + tod mod nsPerDay = tod"
    by simp
  then have "tod div nsPerDay * 86400000000000 + tod mod nsPerDay = tod"
    by (simp add: nsPerDay_def)
  then have c: "tod mod nsPerDay = tod - tod div nsPerDay * 86400000000000"
    by simp
  have "Date y mo d tod off =
      \<lparr>Year = y2, Month = m2, Day = d2, Nanos = tod mod nsPerDay, Offset = off\<rparr>"
    by (simp add: Date_def n nd)
  then have "unixNano (Date y mo d tod off) =
      (daysSinceEpoch y2 m2 d2 * 86400 - off) * 1000000000 + tod mod nsPerDay"
    by (simp add: unixNano_def)
  then show ?thesis
    unfolding e c by (simp add: algebra_simps)
qed

lemma unixNano_AddDate_month:
  "unixNano (AddDate t 0 1 0) =
     unixNano t + (case normMonth (Year t) (Month t) of (y', m') \<Rightarrow> daysIn y' m') * nsPerDay"
proof -
  have "unixNano (AddDate t 0 1 0) =
      (daysSinceEpoch (Year t) (Month t + 1) (Day t) * 86400 - Offset t) * 1000000000 + Nanos t"
    by (simp add: AddDate_def unixNano_Date)
  also obtain y' m' where n: "normMonth (Year t) (Month t) = (y', m')" by force
  have "daysSinceEpoch (Year t) (Month t + 1) (Day t) =
      daysSinceEpoch (Year t) (Month t) (Day t) + daysIn y' m'"
    by (simp add: daysSinceEpoch_next_month n)
  finally show ?thesis
    by (simp add: n unixNano_def[of t] nsPerDay_def algebra_simps)
qed

lemma AddDate_month_later: "unixNano t < unixNano (AddDate t 0 1 0)"
proof -
  obtain y' m' where n: "normMonth (Year t) (Month t) = (y', m')" by force
  have "0 < daysIn y' m' * nsPerDay"
    using daysIn_bounds[of y' m'] by (simp add: nsPerDay_def)
  then show ?thesis
    by (simp add: unixNano_AddDate_month n)
qed

subsection \<open>The month buckets\<close>

text \<open>
  \<^verbatim>\<open>months\<close> of \<^verbatim>\<open>client.go\<close>. Its local closure \<^verbatim>\<open>norm\<close> is \<open>norm_time\<close>; the
  \<^verbatim>\<open>for cur.Before(end)\<close> loop is \<open>months_loop\<close>, which terminates because a month later
  is a later instant.
\<close>

definition norm_time :: "Time \<Rightarrow> Time" where
  "norm_time t = Date (Year t) (Month t) 1 0 0"

function months_loop :: "Time \<Rightarrow> Time \<Rightarrow> Time list \<Rightarrow> Time list" where
  "months_loop cur end out =
     (if Before cur end
      then (let cur' = AddDate cur 0 1 0 in months_loop cur' end (out @ [cur']))
      else out)"
  by pat_completeness auto

termination months_loop
proof (relation "measure (\<lambda>(cur, end, out). nat (unixNano end - unixNano cur))")
  show "wf (measure (\<lambda>(cur, end, out). nat (unixNano end - unixNano cur)))"
    by simp
next
  fix cur fin :: Time and out :: "Time list" and cur' :: Time
  assume "Before cur fin" and "cur' = AddDate cur 0 1 0"
  then show "((cur', fin, out @ [cur']), (cur, fin, out))
      \<in> measure (\<lambda>(cur, end, out). nat (unixNano end - unixNano cur))"
    using AddDate_month_later[of cur] by (simp add: Before_def)
qed

declare months_loop.simps [simp del]

definition months :: "Time \<Rightarrow> Time \<Rightarrow> Time list" where
  "months begin end = months_loop (norm_time begin) (norm_time end) [norm_time begin]"

text \<open>\<^verbatim>\<open>toDate\<close> of \<^verbatim>\<open>client.go\<close>: midnight UTC of the date read in the time's own location.\<close>

definition toDate :: "Time \<Rightarrow> Time" where
  "toDate t = Date (Year t) (Month t) (Day t) 0 0"



text \<open>\<^verbatim>\<open>t.UTC()\<close>: the same instant read in UTC.\<close>

definition UTC :: "Time \<Rightarrow> Time" where
  "UTC t = Date (Year t) (Month t) (Day t) (Nanos t - Offset t * 1000000000) 0"

text \<open>
  \<^verbatim>\<open>time.ParseInLocation("01/02/2006", s, time.UTC)\<close>: two digits of month, a slash, two
  digits of day, a slash, four digits of year and nothing else; the month must be in 1..12
  and the day must exist in that month.
\<close>

definition ParseInLocation :: "string \<Rightarrow> Time option" where
  "ParseInLocation s =
     (if length s = 10 \<and> s ! 2 = CHR ''/'' \<and> s ! 5 = CHR ''/''
         \<and> list_all isDigit (take 2 s) \<and> list_all isDigit (take 2 (drop 3 s))
         \<and> list_all isDigit (drop 6 s)
      then (let mo = digitsVal (take 2 s); d = digitsVal (take 2 (drop 3 s));
                y = digitsVal (drop 6 s)
            in if 1 \<le> mo \<and> mo \<le> 12 \<and> 1 \<le> d \<and> d \<le> daysIn y mo
               then Some \<lparr>Year = y, Month = mo, Day = d, Nanos = 0, Offset = 0\<rparr>
               else None)
      else None)"

text \<open>
  \<^verbatim>\<open>t.Format("2006-01-02 15:04:05.999999999-07:00")\<close>, the text the sync command stores
  for a time. The text spells out the civil date and time of day in full and the offset
  in hours and minutes; it is represented by the time it denotes, which is \<open>t\<close> with
  the seconds of its offset dropped.
\<close>

definition Format :: "Time \<Rightarrow> Time" where
  "Format t = t\<lparr>Offset := quotT (Offset t) 60 * 60\<rparr>"

subsection \<open>Vocabulary for stating the calendar properties\<close>

text \<open>
  Months are numbered consecutively (\<open>monthIndex\<close>); \<open>firstOfMonth n\<close> is midnight UTC
  on the first day of month number \<open>n\<close>. A time is valid when its fields are in their
  ranges, as they are for every value the library constructs.
\<close>

definition monthIndex :: "Time \<Rightarrow> int" where
  "monthIndex t = 12 * Year t + (Month t - 1)"

definition firstOfMonth :: "int \<Rightarrow> Time" where
  "firstOfMonth n = \<lparr>Year = n div 12, Month = n mod 12 + 1, Day = 1, Nanos = 0, Offset = 0\<rparr>"

definition validTime :: "Time \<Rightarrow> bool" where
  "validTime t =
     (1 \<le> Month t \<and> Month t \<le> 12 \<and> 1 \<le> Day t \<and> Day t \<le> daysIn (Year t) (Month t)
      \<and> 0 \<le> Nanos t \<and> Nanos t < nsPerDay)"

section \<open>Data model\<close>

text \<open>The sample structs of \<^verbatim>\<open>client.go\<close>; field names carry the struct as a prefix.\<close>

record WorkoutDistance =
  dist_Elapsed :: Duration
  dist_Total :: float64

record WorkoutPosition =
  pos_Elapsed :: Duration
  pos_Elevation :: float64
  pos_Lat :: float64
  pos_Lng :: float64

record WorkoutSpeed =
  spd_Elapsed :: Duration
  spd_MetersPerSecond :: float64

record WorkoutStep =
  stp_Elapsed :: Duration
  stp_StepsInPeriod :: float64

text \<open>
  The \<^verbatim>\<open>Workout\<close> struct of \<^verbatim>\<open>client.go\<close>. The field \<open>ActivityType\<close> is not
  declared there; the later revision of the sync command reads \<^verbatim>\<open>w.ActivityType\<close> and
  stores it in a column of type text, so it is carried as a string that the client
  leaves at its zero value.
\<close>

record Workout =
  ID :: int
  Name :: string
  Kind :: string
  ActivityType :: string
  Kcal :: int
  Distance :: float64
  Speed :: float64
  Duration :: Duration
  StepCount :: int
  Gain :: int
  StartedAt :: Time
  CreatedAt :: Time
  UpdatedAt :: Time
  Distances :: "WorkoutDistance list"
  Positions :: "WorkoutPosition list"
  Speeds :: "WorkoutSpeed list"
  Steps :: "WorkoutStep list"

text \<open>The zero value \<^verbatim>\<open>Workout{}\<close>.\<close>

definition zeroWorkout :: Workout where
  "zeroWorkout =
     \<lparr>ID = 0, Name = [], Kind = [], ActivityType = [], Kcal = 0, Distance = 0, Speed = 0,
      Duration = 0, StepCount = 0, Gain = 0, StartedAt = zeroTime, CreatedAt = zeroTime,
      UpdatedAt = zeroTime, Distances = [], Positions = [], Speeds = [], Steps = []\<rparr>"

section \<open>The remote service\<close>

text \<open>
  What one HTTP exchange gives the client: no response at all (building the request,
  the token source or the transport failed), or a status code together with the outcome
  of reading and decoding the body (an error, or the decoded value).
\<close>

datatype 'a reply = NoReply string | Reply int "string + 'a"

subsection \<open>The three resources\<close>

text \<open>
  An entry of the dashboard listing, as \<^verbatim>\<open>getMonthWorkoutsForRange\<close> decodes it.
  \<open>rw_Steps\<close> and \<open>rw_Time\<close> are \<^verbatim>\<open>json.RawMessage\<close>: the JSON text of the value.
\<close>

record raw_workout =
  rw_Name :: string
  rw_Date :: string
  rw_ActivityShortName :: string
  rw_Distance :: float64
  rw_Energy :: int
  rw_Speed :: float64
  rw_Steps :: string
  rw_Time :: string
  rw_ViewURL :: string

text \<open>
  \<^verbatim>\<open>rawresp.WorkoutData.Workouts\<close>, a Go map from a date key to entries: the list of its
  key-value pairs in the order the \<^verbatim>\<open>range\<close> loop visits them (which Go leaves open).
\<close>

type_synonym dashboard = "(string \<times> raw_workout list) list"

text \<open>
  A \<^verbatim>\<open>json.RawMessage\<close> of the detail response is described by what \<^verbatim>\<open>json.Unmarshal\<close>
  makes of it for each target type the client asks for: an error or the decoded value.
\<close>

record raw_value =
  as_float :: "string + float64"
  as_position :: "string + WorkoutPosition"

record raw_series =
  as_float_pairs :: "string + (float64 \<times> float64) list"
  as_raw_pairs :: "string + (raw_value \<times> raw_value) list"

record raw_detail =
  rd_CreatedAt :: Time
  rd_StartedAt :: Time
  rd_UpdatedAt :: Time
  rd_Timeseries :: "(string \<times> raw_series) list"

text \<open>
  The HTML document of \<^verbatim>\<open>/workout/<id>\<close> as the queries of \<^verbatim>\<open>fillGainData\<close> see it:
  the elements matched by the selector
  \<^verbatim>\<open>#workout_elevation_data > tbody:nth-child(2) > tr:nth-child(1)\<close>, in document order,
  each with the texts of its \<^verbatim>\<open>th\<close> descendants and of the elements matching
  \<^verbatim>\<open>td > span\<close> below it.
\<close>

record anchor_row =
  th_texts :: "string list"
  td_span_texts :: "string list"

type_synonym gain_page = "anchor_row list"

text \<open>
  The service as a \<^verbatim>\<open>Client\<close> meets it: the reply to the dashboard request for a year
  and month, to the detail request for a workout id, and to the page request for a
  workout id.
\<close>

record Client =
  dashboard_json :: "int \<Rightarrow> int \<Rightarrow> dashboard reply"
  workout_json :: "int \<Rightarrow> raw_detail reply"
  workout_page :: "int \<Rightarrow> gain_page reply"

subsection \<open>getMonthWorkoutsForRange\<close>

text \<open>The composite literal \<^verbatim>\<open>Workout{ID: id, Name: ..., Speed: rw.Speed}\<close>.\<close>

definition listedWorkout :: "raw_workout \<Rightarrow> int \<Rightarrow> Workout" where
  "listedWorkout rw i =
     zeroWorkout\<lparr>ID := i, Name := rw_Name rw, Kind := rw_ActivityShortName rw,
       Kcal := rw_Energy rw, Distance := fl64 (rw_Distance rw * 1000), Speed := rw_Speed rw\<rparr>"

text \<open>
  The body of the inner loop \<^verbatim>\<open>for _, rw := range rws\<close>: \<open>None\<close> is \<^verbatim>\<open>continue\<close>,
  \<open>Some wk\<close> the workout appended. \<^verbatim>\<open>viewURLParts[2]\<close> is an index expression on a
  slice: it panics when the slice has fewer than three elements.
\<close>

definition listEntry :: "int \<Rightarrow> int \<Rightarrow> Time \<Rightarrow> Time \<Rightarrow> raw_workout \<Rightarrow> Workout option result" where
  "listEntry year month beginDate endDate rw =
     (case ParseInLocation (rw_Date rw) of
        None \<Rightarrow> Inl (Error (''converting to date: '' @ rw_Date rw))
      | Some dt \<Rightarrow>
          if \<not> (Year dt = year \<and> Month dt = month) then Inr None
          else if Before dt beginDate \<or> After dt endDate then Inr None
          else (let viewURLParts = splitOn CHR ''/'' (rw_ViewURL rw)
                in if length viewURLParts \<le> 2
                   then Inl (Panic ''index out of range [2]'')
                   else (case Atoi (viewURLParts ! 2) of
                           None \<Rightarrow> Inl (Error (''converting to id: '' @ rw_ViewURL rw))
                         | Some i \<Rightarrow>
                             (let wk = listedWorkout rw i;
                                  wk = (case Atoi (rw_Steps rw) of
                                          Some n \<Rightarrow> wk\<lparr>StepCount := n\<rparr> | None \<Rightarrow> wk);
                                  wk = (case Atoi (rw_Time rw) of
                                          Some n \<Rightarrow> wk\<lparr>Duration := wrap64 (n * Second)\<rparr>
                                        | None \<Rightarrow> wk)
                              in Inr (Some wk)))))"

fun listEntries ::
  "int \<Rightarrow> int \<Rightarrow> Time \<Rightarrow> Time \<Rightarrow> raw_workout list \<Rightarrow> Workout list \<Rightarrow> Workout list result" where
  "listEntries year month beginDate endDate [] workouts = Inr workouts"
| "listEntries year month beginDate endDate (rw # rws) workouts =
     (case listEntry year month beginDate endDate rw of
        Inl e \<Rightarrow> Inl e
      | Inr None \<Rightarrow> listEntries year month beginDate endDate rws workouts
      | Inr (Some wk) \<Rightarrow> listEntries year month beginDate endDate rws (workouts @ [wk]))"

fun listDays ::
  "int \<Rightarrow> int \<Rightarrow> Time \<Rightarrow> Time \<Rightarrow> dashboard \<Rightarrow> Workout list \<Rightarrow> Workout list result" where
  "listDays year month beginDate endDate [] workouts = Inr workouts"
| "listDays year month beginDate endDate ((k, rws) # days) workouts =
     (case listEntries year month beginDate endDate rws workouts of
        Inl e \<Rightarrow> Inl e
      | Inr workouts' \<Rightarrow> listDays year month beginDate endDate days workouts')"

definition getMonthWorkoutsForRange ::
  "Client \<Rightarrow> int \<Rightarrow> int \<Rightarrow> Time \<Rightarrow> Time \<Rightarrow> Workout list result" where
  "getMonthWorkoutsForRange c year month beginDate endDate =
     (case dashboard_json c year month of
        NoReply e \<Rightarrow> Inl (Error e)
      | Reply status body \<Rightarrow>
          if status \<noteq> 200 then Inl (Error ''got status'')
          else (case body of
                  Inl e \<Rightarrow> Inl (Error e)
                | Inr rawresp \<Rightarrow> listDays year month beginDate endDate rawresp []))"

subsection \<open>fillMainData\<close>

fun positionsLoop :: "(raw_value \<times> raw_value) list \<Rightarrow> Workout \<Rightarrow> Workout result" where
  "positionsLoop [] wk = Inr wk"
| "positionsLoop (rp # rps) wk =
     (case as_position (snd rp) of
        Inl e \<Rightarrow> Inl (Error e)
      | Inr pos \<Rightarrow>
          (case as_float (fst rp) of
             Inl e \<Rightarrow> Inl (Error e)
           | Inr el \<Rightarrow>
               positionsLoop rps
                 (wk\<lparr>Positions := Positions wk @ [pos\<lparr>pos_Elapsed := elapsedDuration el\<rparr>]\<rparr>)))"

text \<open>The loop \<^verbatim>\<open>for k, v := range rawresp.Timeseries\<close> with its \<^verbatim>\<open>switch k\<close>.\<close>

fun seriesLoop :: "(string \<times> raw_series) list \<Rightarrow> Workout \<Rightarrow> Workout result" where
  "seriesLoop [] wk = Inr wk"
| "seriesLoop ((k, v) # rest) wk =
     (if k = ''distance'' then
        (case as_float_pairs v of
           Inl e \<Rightarrow> Inl (Error e)
         | Inr rawDistances \<Rightarrow>
             seriesLoop rest
               (wk\<lparr>Distances := Distances wk @
                  map (\<lambda>rd. \<lparr>dist_Elapsed = elapsedDuration (fst rd), dist_Total = snd rd\<rparr>)
                    rawDistances\<rparr>))
      else if k = ''position'' then
        (case as_raw_pairs v of
           Inl e \<Rightarrow> Inl (Error e)
         | Inr rawPositions \<Rightarrow>
             (case positionsLoop rawPositions wk of
                Inl e \<Rightarrow> Inl e
              | Inr wk' \<Rightarrow> seriesLoop rest wk'))
      else if k = ''speed'' then
        (case as_float_pairs v of
           Inl e \<Rightarrow> Inl (Error e)
         | Inr rawSpeeds \<Rightarrow>
             seriesLoop rest
               (wk\<lparr>Speeds := Speeds wk @
                  map (\<lambda>rs. \<lparr>spd_Elapsed = elapsedDuration (fst rs), spd_MetersPerSecond = snd rs\<rparr>)
                    rawSpeeds\<rparr>))
      else if k = ''steps'' then
        (case as_float_pairs v of
           Inl e \<Rightarrow> Inl (Error e)
         | Inr rawSteps \<Rightarrow>
             seriesLoop rest
               (wk\<lparr>Steps := Steps wk @
                  map (\<lambda>rs. \<lparr>stp_Elapsed = elapsedDuration (fst rs), stp_StepsInPeriod = snd rs\<rparr>)
                    rawSteps\<rparr>))
      else seriesLoop rest wk)"

definition fillMainData :: "Client \<Rightarrow> Workout \<Rightarrow> Workout result" where
  "fillMainData c wk =
     (case workout_json c (ID wk) of
        NoReply e \<Rightarrow> Inl (Error e)
      | Reply status body \<Rightarrow>
          if status \<noteq> 200 then Inl (Error ''got status'')
          else (case body of
                  Inl e \<Rightarrow> Inl (Error e)
                | Inr rawresp \<Rightarrow>
                    seriesLoop (rd_Timeseries rawresp)
                      (wk\<lparr>CreatedAt := rd_CreatedAt rawresp, StartedAt := rd_StartedAt rawresp,
                          UpdatedAt := rd_UpdatedAt rawresp\<rparr>)))"

subsection \<open>fillGainData\<close>

text \<open>\<^verbatim>\<open>Selection.First().Text()\<close> and \<^verbatim>\<open>Selection.Eq(0).Text()\<close>: the text of the
  first matched element, the empty string for an empty selection.\<close>

definition firstText :: "string list \<Rightarrow> string" where
  "firstText ts = (case ts of [] \<Rightarrow> [] | t # _ \<Rightarrow> t)"

definition fillGainData :: "Client \<Rightarrow> Workout \<Rightarrow> Workout result" where
  "fillGainData c wk =
     (case workout_page c (ID wk) of
        NoReply e \<Rightarrow> Inl (Error e)
      | Reply status body \<Rightarrow>
          if status \<noteq> 200 then Inl (Error ''got status'')
          else (case body of
                  Inl e \<Rightarrow> Inl (Error (''creating query document: '' @ e))
                | Inr elem \<Rightarrow>
                    if length elem = 0 then Inr wk
                    else if firstText (concat (map th_texts elem)) \<noteq> ''Gain''
                    then Inl (Error ''unable to detect gain for workout'')
                    else (let gains = TrimSpace (firstText (concat (map td_span_texts elem)))
                          in if gains = '''' \<or> gains = ''--'' then Inr wk
                             else (case Atoi gains of
                                     None \<Rightarrow> Inl (Error (''strconv.Atoi: parsing '' @ gains))
                                   | Some gain \<Rightarrow> Inr (wk\<lparr>Gain := gain\<rparr>)))))"

subsection \<open>fillWorkout and GetWorkouts\<close>

text \<open>
  \<^verbatim>\<open>fillWorkout\<close> runs the two fills in an \<^verbatim>\<open>errgroup\<close> on the same workout and waits
  for both. They write different fields, so the filled workout is that of running one
  after the other; the call fails when either fails (which of two errors is reported
  depends on the schedule; the model reports that of \<open>fillMainData\<close>).
\<close>

definition fillWorkout :: "Client \<Rightarrow> Workout \<Rightarrow> Workout result" where
  "fillWorkout c wk =
     (case fillMainData c wk of
        Inl e \<Rightarrow> Inl e
      | Inr wk' \<Rightarrow> fillGainData c wk')"

text \<open>The inner loop \<^verbatim>\<open>for _, wk := range mwks\<close> of \<^verbatim>\<open>GetWorkouts\<close>.\<close>

fun fillLoop :: "Client \<Rightarrow> Time \<Rightarrow> Time \<Rightarrow> Workout list \<Rightarrow> Workout list \<Rightarrow> Workout list result" where
  "fillLoop c begin end [] workouts = Inr workouts"
| "fillLoop c begin end (wk # mwks) workouts =
     (case fillWorkout c wk of
        Inl e \<Rightarrow> Inl e
      | Inr wk' \<Rightarrow>
          if Before (StartedAt wk') begin \<or> After (StartedAt wk') end
          then fillLoop c begin end mwks workouts
          else fillLoop c begin end mwks (workouts @ [wk']))"

text \<open>The outer loop \<^verbatim>\<open>for _, m := range months(begin, end)\<close>.\<close>

fun monthsLoop ::
  "Client \<Rightarrow> Time \<Rightarrow> Time \<Rightarrow> Time \<Rightarrow> Time \<Rightarrow> Time list \<Rightarrow> Workout list \<Rightarrow> Workout list result" where
  "monthsLoop c begin end beginDate endDate [] workouts = Inr workouts"
| "monthsLoop c begin end beginDate endDate (m # ms) workouts =
     (case getMonthWorkoutsForRange c (Year m) (Month m) beginDate endDate of
        Inl e \<Rightarrow> Inl e
      | Inr mwks \<Rightarrow>
          (case fillLoop c begin end mwks workouts of
             Inl e \<Rightarrow> Inl e
           | Inr workouts' \<Rightarrow> monthsLoop c begin end beginDate endDate ms workouts'))"

text \<open>
  \<^verbatim>\<open>sort.Slice\<close> orders by \<^verbatim>\<open>StartedAt.Before\<close>; it is not stable, so the order among
  workouts of equal start instant is open. The model takes the stable order.
\<close>

definition GetWorkouts :: "Client \<Rightarrow> Time \<Rightarrow> Time \<Rightarrow> Workout list result" where
  "GetWorkouts c begin end =
     (case monthsLoop c begin end (toDate begin) (toDate end) (months begin end) [] of
        Inl e \<Rightarrow> Inl e
      | Inr workouts \<Rightarrow> Inr (sort_key (\<lambda>wk. unixNano (StartedAt wk)) workouts))"

text \<open>A workout's start instant lies in \<open>[begin, end]\<close>, both ends included.\<close>

definition startedWithin :: "Time \<Rightarrow> Time \<Rightarrow> Workout \<Rightarrow> bool" where
  "startedWithin begin end wk =
     (unixNano begin \<le> unixNano (StartedAt wk) \<and> unixNano (StartedAt wk) \<le> unixNano end)"

section \<open>The text of a time\<close>

text \<open>
  The sync command keeps times in the database as text. \<^verbatim>\<open>appendInt\<close> of package
  \<^verbatim>\<open>time\<close> writes an integer in decimal, with a minus sign when negative and padded
  with zeros to the given width.
\<close>

function decimal :: "int \<Rightarrow> string" where
  "decimal n =
     (if n < 10 then [''0123456789'' ! nat n]
      else decimal (n div 10) @ [''0123456789'' ! nat (n mod 10)])"
  by pat_completeness auto

termination
  by (relation "measure nat") auto

declare decimal.simps [simp del]

definition appendInt :: "int \<Rightarrow> nat \<Rightarrow> string" where
  "appendInt x width =
     (let ds = decimal \<bar>x\<bar>
      in (if x < 0 then ''-'' else '''') @ replicate (width - length ds) (CHR ''0'') @ ds)"

text \<open>
  The layout element \<^verbatim>\<open>.999999999\<close>: the nine digits of the nanoseconds without their
  trailing zeros, after a point; nothing at all when the nanoseconds are zero.
\<close>

definition formatNano :: "int \<Rightarrow> string" where
  "formatNano nanosec =
     (let buf = appendInt nanosec 9;
          digits = rev (dropWhile (\<lambda>c. c = CHR ''0'') (rev buf))
      in if digits = [] then [] else ''.'' @ digits)"

text \<open>
  The layout elements \<^verbatim>\<open>-07:00\<close> (with the colon) and \<^verbatim>\<open>-0700\<close>: the sign, and the hours
  and minutes of the offset, whose seconds are dropped (\<^verbatim>\<open>zone := offset / 60\<close>).
\<close>

definition zoneText :: "bool \<Rightarrow> int \<Rightarrow> string" where
  "zoneText colon offset =
     (let zone = quotT offset 60
      in (if zone < 0 then ''-'' else ''+'') @ appendInt (\<bar>zone\<bar> div 60) 2
         @ (if colon then '':'' else '''') @ appendInt (\<bar>zone\<bar> mod 60) 2)"

text \<open>The layout prefix \<^verbatim>\<open>2006-01-02 15:04:05.999999999\<close>, common to the two layouts below.\<close>

definition civilText :: "Time \<Rightarrow> string" where
  "civilText t =
     appendInt (Year t) 4 @ ''-'' @ appendInt (Month t) 2 @ ''-'' @ appendInt (Day t) 2
     @ '' '' @ appendInt (Nanos t div 3600000000000) 2
     @ '':'' @ appendInt (Nanos t div 60000000000 mod 60) 2
     @ '':'' @ appendInt (Nanos t div 1000000000 mod 60) 2
     @ formatNano (Nanos t mod 1000000000)"

text \<open>
  \<^verbatim>\<open>t.Format(timeFormat)\<close> with \<^verbatim>\<open>timeFormat = "2006-01-02 15:04:05.999999999-07:00"\<close>, the
  text that \<^verbatim>\<open>sync\<close> binds to the time columns in the later revision of the command. In
  the earlier revision \<^verbatim>\<open>sync\<close> binds the \<^verbatim>\<open>time.Time\<close> itself and the driver of that
  revision (go-sqlite3) writes it in this same layout.
\<close>

definition timeFormatText :: "Time \<Rightarrow> string" where
  "timeFormatText t = civilText t @ zoneText True (Offset t)"

text \<open>
  \<^verbatim>\<open>t.String()\<close>, the layout \<^verbatim>\<open>2006-01-02 15:04:05.999999999 -0700 MST\<close>. The
  abbreviation of the zone is a property of the location, given here as an argument; for
  a location without a name the numeric offset is written in its place. (To a time that
  was read from the clock, \<^verbatim>\<open>String\<close> appends the monotonic clock reading, as in
  \<^verbatim>\<open> m=+0.000040000\<close>.)
\<close>

definition TimeString :: "string \<Rightarrow> Time \<Rightarrow> string" where
  "TimeString abbrev t =
     civilText t @ '' '' @ zoneText False (Offset t) @ '' ''
     @ (if abbrev = [] then zoneText False (Offset t) else abbrev)"

text \<open>
  The order in which SQLite compares two text values (the \<^verbatim>\<open>BINARY\<close> collation): byte by
  byte as \<^verbatim>\<open>memcmp\<close> does, a proper prefix before its extensions.
\<close>

fun bytesLe :: "string \<Rightarrow> string \<Rightarrow> bool" where
  "bytesLe [] ys = True"
| "bytesLe (x # xs) [] = False"
| "bytesLe (x # xs) (y # ys) = ((of_char x :: nat) < of_char y \<or> (x = y \<and> bytesLe xs ys))"

section \<open>The store of the sync command\<close>

text \<open>
  The five tables that \<^verbatim>\<open>DB.init\<close> creates, each the list of its rows in rowid order.
  A time column holds the text the command formats (see \<open>Format\<close>); a numeric column
  holds the float or integer bound to it.
\<close>

record workout_row =
  w_id :: int
  w_user_name :: string
  w_name :: string
  w_kind :: string
  w_activity_type :: string
  w_kcal :: int
  w_distance_m :: float64
  w_speed_mps :: float64
  w_duration_s :: int
  w_step_count :: int
  w_gain_m :: int
  w_started_at :: Time
  w_created_at :: Time
  w_updated_at :: Time

record distance_row =
  d_workout_id :: int
  d_elapsed_seconds :: float64
  d_total_meters :: float64

record position_row =
  p_workout_id :: int
  p_elapsed_seconds :: float64
  p_elevation :: float64
  p_lat :: float64
  p_lng :: float64

record speed_row =
  s_workout_id :: int
  s_elapsed_seconds :: float64
  s_meters_per_second :: float64

record step_row =
  t_workout_id :: int
  t_elapsed_seconds :: float64
  t_steps :: float64

record store =
  workouts :: "workout_row list"
  workout_distances :: "distance_row list"
  workout_positions :: "position_row list"
  workout_speeds :: "speed_row list"
  workout_steps :: "step_row list"

subsection \<open>Statements\<close>

text \<open>
  The statements the command issues, with their bound arguments, and what each does to
  the tables. \<open>id\<close> is the primary key of \<open>workouts\<close>: inserting a second row with the
  same id violates the constraint. The \<^verbatim>\<open>references\<close> clauses of the child tables are not
  enforced (SQLite enforces foreign keys only when the connection turns them on, which
  \<^verbatim>\<open>newDB\<close> does not).
\<close>

datatype child_table = T_steps | T_speeds | T_positions | T_distances

datatype stmt =
    DeleteChild child_table int
  | DeleteWorkout int
  | InsertWorkout workout_row
  | InsertDistance distance_row
  | InsertPosition position_row
  | InsertSpeed speed_row
  | InsertStep step_row

fun apply_stmt :: "stmt \<Rightarrow> store \<Rightarrow> store result" where
  "apply_stmt (DeleteChild T_steps i) s =
     Inr (s\<lparr>workout_steps := filter (\<lambda>r. t_workout_id r \<noteq> i) (workout_steps s)\<rparr>)"
| "apply_stmt (DeleteChild T_speeds i) s =
     Inr (s\<lparr>workout_speeds := filter (\<lambda>r. s_workout_id r \<noteq> i) (workout_speeds s)\<rparr>)"
| "apply_stmt (DeleteChild T_positions i) s =
     Inr (s\<lparr>workout_positions := filter (\<lambda>r. p_workout_id r \<noteq> i) (workout_positions s)\<rparr>)"
| "apply_stmt (DeleteChild T_distances i) s =
     Inr (s\<lparr>workout_distances := filter (\<lambda>r. d_workout_id r \<noteq> i) (workout_distances s)\<rparr>)"
| "apply_stmt (DeleteWorkout i) s =
     Inr (s\<lparr>workouts := filter (\<lambda>r. w_id r \<noteq> i) (workouts s)\<rparr>)"
| "apply_stmt (InsertWorkout row) s =
     (if w_id row \<in> w_id ` set (workouts s)
      then Inl (Error ''UNIQUE constraint failed: workouts.id'')
      else Inr (s\<lparr>workouts := workouts s @ [row]\<rparr>))"
| "apply_stmt (InsertDistance row) s = Inr (s\<lparr>workout_distances := workout_distances s @ [row]\<rparr>)"
| "apply_stmt (InsertPosition row) s = Inr (s\<lparr>workout_positions := workout_positions s @ [row]\<rparr>)"
| "apply_stmt (InsertSpeed row) s = Inr (s\<lparr>workout_speeds := workout_speeds s @ [row]\<rparr>)"
| "apply_stmt (InsertStep row) s = Inr (s\<lparr>workout_steps := workout_steps s @ [row]\<rparr>)"

text \<open>
  A call on the database can also fail for reasons outside the program (the disk, a
  lock, a cancelled context). \<open>faults\<close> says which calls of one run do: the calls are
  numbered in the order they are issued, and call \<open>k\<close> fails when \<open>flt k\<close> holds. A failed
  statement changes nothing.
\<close>

type_synonym faults = "nat \<Rightarrow> bool"

definition ExecContext :: "faults \<Rightarrow> nat \<Rightarrow> stmt \<Rightarrow> store \<Rightarrow> store result" where
  "ExecContext flt k st s = (if flt k then Inl (Error ''exec failed'') else apply_stmt st s)"

text \<open>
  Statements issued one after the other inside a transaction, stopping at the first
  error (\<^verbatim>\<open>if err != nil { return err }\<close>); the result carries the number of the next
  call.
\<close>

fun execAll :: "faults \<Rightarrow> nat \<Rightarrow> stmt list \<Rightarrow> store \<Rightarrow> (nat \<times> store) result" where
  "execAll flt k [] s = Inr (k, s)"
| "execAll flt k (st # sts) s =
     (case ExecContext flt k st s of
        Inl e \<Rightarrow> Inl e
      | Inr s' \<Rightarrow> execAll flt (Suc k) sts s')"

subsection \<open>sync\<close>

text \<open>
  The arguments of the parent insert. The later revision of the command binds
  \<^verbatim>\<open>int(w.Duration.Seconds())\<close> to \<open>duration_s\<close> and the formatted times; the earlier one
  binds the text \<^verbatim>\<open>"%d seconds"\<close> of \<^verbatim>\<open>w.Duration/time.Second\<close>, whole seconds as well.
\<close>

definition workoutRow :: "string \<Rightarrow> Workout \<Rightarrow> workout_row" where
  "workoutRow userName w =
     \<lparr>w_id = ID w, w_user_name = userName, w_name = Name w, w_kind = Kind w,
      w_activity_type = ActivityType w, w_kcal = Kcal w, w_distance_m = Distance w,
      w_speed_mps = Speed w, w_duration_s = toInt64 (Seconds (Duration w)),
      w_step_count = StepCount w, w_gain_m = Gain w,
      w_started_at = Format (StartedAt w), w_created_at = Format (CreatedAt w),
      w_updated_at = Format (UpdatedAt w)\<rparr>"

definition distanceRow :: "Workout \<Rightarrow> WorkoutDistance \<Rightarrow> distance_row" where
  "distanceRow w d =
     \<lparr>d_workout_id = ID w, d_elapsed_seconds = Seconds (dist_Elapsed d),
      d_total_meters = dist_Total d\<rparr>"

definition positionRow :: "Workout \<Rightarrow> WorkoutPosition \<Rightarrow> position_row" where
  "positionRow w p =
     \<lparr>p_workout_id = ID w, p_elapsed_seconds = Seconds (pos_Elapsed p),
      p_elevation = pos_Elevation p, p_lat = pos_Lat p, p_lng = pos_Lng p\<rparr>"

definition speedRow :: "Workout \<Rightarrow> WorkoutSpeed \<Rightarrow> speed_row" where
  "speedRow w s =
     \<lparr>s_workout_id = ID w, s_elapsed_seconds = Seconds (spd_Elapsed s),
      s_meters_per_second = spd_MetersPerSecond s\<rparr>"

definition stepRow :: "Workout \<Rightarrow> WorkoutStep \<Rightarrow> step_row" where
  "stepRow w s =
     \<lparr>t_workout_id = ID w, t_elapsed_seconds = Seconds (stp_Elapsed s),
      t_steps = stp_StepsInPeriod s\<rparr>"

text \<open>The statements of \<^verbatim>\<open>sync\<close> between \<^verbatim>\<open>BeginTx\<close> and \<^verbatim>\<open>Commit\<close>, in program order.\<close>

definition syncStmts :: "string \<Rightarrow> Workout \<Rightarrow> stmt list" where
  "syncStmts userName w =
     map (\<lambda>t. DeleteChild t (ID w)) [T_steps, T_speeds, T_positions, T_distances]
     @ [DeleteWorkout (ID w)]
     @ [InsertWorkout (workoutRow userName w)]
     @ map (\<lambda>d. InsertDistance (distanceRow w d)) (Distances w)
     @ map (\<lambda>p. InsertPosition (positionRow w p)) (Positions w)
     @ map (\<lambda>s. InsertSpeed (speedRow w s)) (Speeds w)
     @ map (\<lambda>s. InsertStep (stepRow w s)) (Steps w)"

text \<open>
  \<^verbatim>\<open>sync\<close>: call 0 is \<^verbatim>\<open>BeginTx\<close>; the statements run on the transaction's view of the
  tables; the last call is \<^verbatim>\<open>Commit\<close>, which publishes that view. On every error return
  the deferred \<^verbatim>\<open>tx.Rollback()\<close> discards the view. The result is the returned error (or
  success) and the tables as they are after the call.
\<close>

definition sync :: "faults \<Rightarrow> string \<Rightarrow> Workout \<Rightarrow> store \<Rightarrow> unit result \<times> store" where
  "sync flt userName w db =
     (if flt 0 then (Inl (Error ''begin failed''), db)
      else (case execAll flt 1 (syncStmts userName w) db of
              Inl e \<Rightarrow> (Inl e, db)
            | Inr (k, tx) \<Rightarrow>
                if flt k then (Inl (Error ''commit failed''), db)
                else (Inr (), tx)))"

subsection \<open>removeExtra\<close>

text \<open>
  \<^verbatim>\<open>removeExtra\<close> issues one statement outside any transaction:
  \<^verbatim>\<open>delete from workouts where started_at >= $1 and started_at <= $2 and user_name=$3
  and id not in (...)\<close> with the ids of the fetched workouts spliced in (an empty list
  is accepted by SQLite and excludes nothing). \<open>begin\<close> and \<open>end\<close> are bound as
  \<^verbatim>\<open>time.Time\<close> values, which the database driver turns into text; the column
  \<open>started_at\<close> holds the text that \<^verbatim>\<open>sync\<close> stored (a column holds it as the time it
  denotes, see \<open>Format\<close>, from which the text is written out again). Neither text is a
  number, so SQLite compares them as text, byte by byte.

  The driver is not part of the repository; its rendering of a bound time is the
  argument \<open>bindTime\<close>. The driver of the earlier revision (go-sqlite3) writes the
  layout of \<open>timeFormatText\<close>; the driver of the later revision (modernc.org/sqlite
  1.13) writes \<^verbatim>\<open>t.String()\<close>.

  Call 0 is \<^verbatim>\<open>ExecContext\<close>, call 1 is \<^verbatim>\<open>RowsAffected\<close>, whose error is returned after
  the delete has taken effect.
\<close>

definition isExtra ::
  "(Time \<Rightarrow> string) \<Rightarrow> string \<Rightarrow> Time \<Rightarrow> Time \<Rightarrow> Workout list \<Rightarrow> workout_row \<Rightarrow> bool" where
  "isExtra bindTime userName begin end ws r =
     (bytesLe (bindTime begin) (timeFormatText (w_started_at r))
      \<and> bytesLe (timeFormatText (w_started_at r)) (bindTime end)
      \<and> w_user_name r = userName \<and> w_id r \<notin> set (map ID ws))"

definition removeExtra ::
  "faults \<Rightarrow> (Time \<Rightarrow> string) \<Rightarrow> string \<Rightarrow> Time \<Rightarrow> Time \<Rightarrow> Workout list \<Rightarrow> store
     \<Rightarrow> unit result \<times> store" where
  "removeExtra flt bindTime userName begin end ws db =
     (if flt 0 then (Inl (Error ''exec failed''), db)
      else (let db' = db\<lparr>workouts :=
                         filter (\<lambda>r. \<not> isExtra bindTime userName begin end ws r) (workouts db)\<rparr>
            in if flt 1 then (Inl (Error ''rows affected failed''), db')
               else (Inr (), db')))"

subsection \<open>Reading a workout back\<close>

text \<open>
  Modelled from the spec: the repository has no function that reads a workout back from
  the store; the round-trip property of the spec ("upserting a workout then reading it
  back yields identical parent fields and identical ordered sample sequences (elapsed
  offsets preserved to millisecond precision)") speaks of one. \<open>readWorkout\<close> selects the
  parent row of the id and the child rows of the id from each sample table in rowid
  order, and maps the columns back to the fields: seconds to durations, elapsed seconds
  to the nearest millisecond.
\<close>

definition readElapsed :: "float64 \<Rightarrow> Duration" where
  "readElapsed x = round (x * 1000) * Millisecond"

definition readWorkout :: "store \<Rightarrow> int \<Rightarrow> Workout option" where
  "readWorkout db i =
     (case find (\<lambda>r. w_id r = i) (workouts db) of
        None \<Rightarrow> None
      | Some r \<Rightarrow>
          Some \<lparr>ID = w_id r, Name = w_name r, Kind = w_kind r,
                ActivityType = w_activity_type r, Kcal = w_kcal r,
                Distance = w_distance_m r, Speed = w_speed_mps r,
                Duration = w_duration_s r * Second, StepCount = w_step_count r,
                Gain = w_gain_m r, StartedAt = w_started_at r, CreatedAt = w_created_at r,
                UpdatedAt = w_updated_at r,
                Distances =
                  map (\<lambda>d. \<lparr>dist_Elapsed = readElapsed (d_elapsed_seconds d),
                             dist_Total = d_total_meters d\<rparr>)
                    (filter (\<lambda>d. d_workout_id d = i) (workout_distances db)),
                Positions =
                  map (\<lambda>p. \<lparr>pos_Elapsed = readElapsed (p_elapsed_seconds p),
                             pos_Elevation = p_elevation p, pos_Lat = p_lat p,
                             pos_Lng = p_lng p\<rparr>)
                    (filter (\<lambda>p. p_workout_id p = i) (workout_positions db)),
                Speeds =
                  map (\<lambda>s. \<lparr>spd_Elapsed = readElapsed (s_elapsed_seconds s),
                             spd_MetersPerSecond = s_meters_per_second s\<rparr>)
                    (filter (\<lambda>s. s_workout_id s = i) (workout_speeds db)),
                Steps =
                  map (\<lambda>s. \<lparr>stp_Elapsed = readElapsed (t_elapsed_seconds s),
                             stp_StepsInPeriod = t_steps s\<rparr>)
                    (filter (\<lambda>s. t_workout_id s = i) (workout_steps db))\<rparr>)"

definition emptyStore :: store where
  "emptyStore =
     \<lparr>workouts = [], workout_distances = [], workout_positions = [], workout_speeds = [],
      workout_steps = []\<rparr>"

subsection \<open>Vocabulary for stating the store properties\<close>

text \<open>
  The tables with the rows of workout \<open>w\<close> replaced: every row of its id removed from
  the five tables, the new parent row and the new sample rows appended.
\<close>

definition replaceWorkout :: "string \<Rightarrow> Workout \<Rightarrow> store \<Rightarrow> store" where
  "replaceWorkout userName w db =
     \<lparr>workouts = filter (\<lambda>r. w_id r \<noteq> ID w) (workouts db) @ [workoutRow userName w],
      workout_distances =
        filter (\<lambda>r. d_workout_id r \<noteq> ID w) (workout_distances db)
          @ map (distanceRow w) (Distances w),
      workout_positions =
        filter (\<lambda>r. p_workout_id r \<noteq> ID w) (workout_positions db)
          @ map (positionRow w) (Positions w),
      workout_speeds =
        filter (\<lambda>r. s_workout_id r \<noteq> ID w) (workout_speeds db)
          @ map (speedRow w) (Speeds w),
      workout_steps =
        filter (\<lambda>r. t_workout_id r \<noteq> ID w) (workout_steps db)
          @ map (stepRow w) (Steps w)\<rparr>"

definition noFaults :: faults where
  "noFaults = (\<lambda>k. False)"

definition failAt :: "nat \<Rightarrow> faults" where
  "failAt n = (\<lambda>k. k = n)"

text \<open>
  A workout with the elapsed offset of every sample replaced by what is read back from
  the seconds stored for it.
\<close>

definition reread :: "Workout \<Rightarrow> Workout" where
  "reread w =
     w\<lparr>Distances := map (\<lambda>d. d\<lparr>dist_Elapsed := readElapsed (Seconds (dist_Elapsed d))\<rparr>)
                       (Distances w),
       Positions := map (\<lambda>p. p\<lparr>pos_Elapsed := readElapsed (Seconds (pos_Elapsed p))\<rparr>)
                       (Positions w),
       Speeds := map (\<lambda>s. s\<lparr>spd_Elapsed := readElapsed (Seconds (spd_Elapsed s))\<rparr>)
                    (Speeds w),
       Steps := map (\<lambda>s. s\<lparr>stp_Elapsed := readElapsed (Seconds (stp_Elapsed s))\<rparr>)
                   (Steps w)\<rparr>"

text \<open>A duration in the range of \<^verbatim>\<open>int64\<close> that is a whole number of milliseconds.\<close>

definition wholeMillis :: "Duration \<Rightarrow> bool" where
  "wholeMillis e = (int64 e \<and> remT e Millisecond = 0)"

section \<open>Sample inputs\<close>

text \<open>Concrete clients, pages and times on which the properties below are exercised.\<close>

definition pageClient :: "gain_page \<Rightarrow> Client" where
  "pageClient page =
     \<lparr>dashboard_json = (\<lambda>y m. NoReply ''no dashboard''),
      workout_json = (\<lambda>i. NoReply ''no detail''),
      workout_page = (\<lambda>i. Reply 200 (Inr page))\<rparr>"

definition gainRow :: "string \<Rightarrow> string \<Rightarrow> anchor_row" where
  "gainRow label cell = \<lparr>th_texts = [label], td_span_texts = [cell, ''m'']\<rparr>"

definition day_2010_11_05 :: Time where
  "day_2010_11_05 = \<lparr>Year = 2010, Month = 11, Day = 5, Nanos = 0, Offset = 0\<rparr>"

definition day_2011_04_01 :: Time where
  "day_2011_04_01 = \<lparr>Year = 2011, Month = 4, Day = 1, Nanos = 0, Offset = 0\<rparr>"

definition zoned_begin :: Time where
  "zoned_begin = \<lparr>Year = 2010, Month = 4, Day = 1, Nanos = 1800000000000, Offset = 3600\<rparr>"

definition utc_end :: Time where
  "utc_end = \<lparr>Year = 2010, Month = 3, Day = 31, Nanos = 85500000000000, Offset = 0\<rparr>"

definition listed :: "string \<Rightarrow> string \<Rightarrow> raw_workout" where
  "listed date viewURL =
     \<lparr>rw_Name = ''ride'', rw_Date = date, rw_ActivityShortName = ''ride'', rw_Distance = 0,
      rw_Energy = 0, rw_Speed = 0, rw_Steps = ''null'', rw_Time = ''60'', rw_ViewURL = viewURL\<rparr>"

definition listingClient :: "raw_workout list \<Rightarrow> Client" where
  "listingClient rws =
     \<lparr>dashboard_json = (\<lambda>y m. Reply 200 (Inr [(''10'', rws)])),
      workout_json = (\<lambda>i. NoReply ''no detail''),
      workout_page = (\<lambda>i. NoReply ''no page'')\<rparr>"

definition day_2020_03_01 :: Time where
  "day_2020_03_01 = \<lparr>Year = 2020, Month = 3, Day = 1, Nanos = 0, Offset = 0\<rparr>"

definition day_2020_03_31 :: Time where
  "day_2020_03_31 = \<lparr>Year = 2020, Month = 3, Day = 31, Nanos = 0, Offset = 0\<rparr>"

definition at_0732 :: Time where
  "at_0732 = \<lparr>Year = 2020, Month = 3, Day = 10, Nanos = 27176000000000, Offset = 0\<rparr>"

definition at_0733 :: Time where
  "at_0733 = \<lparr>Year = 2020, Month = 3, Day = 10, Nanos = 27236000000000, Offset = 0\<rparr>"

definition at_0832 :: Time where
  "at_0832 = \<lparr>Year = 2020, Month = 3, Day = 10, Nanos = 30776000000000, Offset = 0\<rparr>"

definition at_0833 :: Time where
  "at_0833 = \<lparr>Year = 2020, Month = 3, Day = 10, Nanos = 30836000000000, Offset = 0\<rparr>"

definition ride :: "int \<Rightarrow> Time \<Rightarrow> Workout" where
  "ride i t = zeroWorkout\<lparr>ID := i, Name := ''ride'', Kind := ''ride'', StartedAt := t\<rparr>"

definition trace :: "WorkoutDistance list" where
  "trace = [\<lparr>dist_Elapsed = 1024000000, dist_Total = 10\<rparr>,
            \<lparr>dist_Elapsed = 8096000000, dist_Total = 25\<rparr>]"

definition tracedRide :: Workout where
  "tracedRide = (ride 3 at_0832)\<lparr>Duration := 60000000000, Distances := trace\<rparr>"

definition storedRides :: store where
  "storedRides =
     emptyStore\<lparr>workouts :=
         [workoutRow ''dan'' (ride 1 at_0732), workoutRow ''dan'' (ride 2 at_0733),
          workoutRow ''dan'' tracedRide, workoutRow ''dan'' (ride 4 at_0833),
          workoutRow ''eve'' (ride 5 at_0733)],
       workout_distances := map (distanceRow tracedRide) trace\<rparr>"

definition detailAt :: "Time \<Rightarrow> raw_detail" where
  "detailAt t = \<lparr>rd_CreatedAt = at_0732, rd_StartedAt = t, rd_UpdatedAt = at_0833,
                 rd_Timeseries = []\<rparr>"

text \<open>
  Three rides listed for March 10th 2020: ride 1 starts at 07:32:56, ride 2 at 08:32:56
  and ride 3 at 08:33:56.
\<close>

definition rangeClient :: Client where
  "rangeClient =
     \<lparr>dashboard_json = (\<lambda>y m. Reply 200 (Inr [(''10'',
          [listed ''03/10/2020'' ''/workout/3'', listed ''03/10/2020'' ''/workout/2'',
           listed ''03/10/2020'' ''/workout/1''])])),
      workout_json = (\<lambda>i. Reply 200 (Inr (detailAt
          (if i = 1 then at_0732 else if i = 2 then at_0832 else at_0833)))),
      workout_page = (\<lambda>i. Reply 200 (Inr []))\<rparr>"

definition floatSeries :: "(float64 \<times> float64) list \<Rightarrow> raw_series" where
  "floatSeries pairs = \<lparr>as_float_pairs = Inr pairs, as_raw_pairs = Inl ''not raw pairs''\<rparr>"

text \<open>A time in a location twenty minutes less eight seconds east of UTC.\<close>

definition lmt_time :: Time where
  "lmt_time = \<lparr>Year = 2020, Month = 3, Day = 10, Nanos = 27176000000000, Offset = 1172\<rparr>"

text \<open>The traced ride with a duration of one second and a half.\<close>

definition shortRide :: Workout where
  "shortRide = tracedRide\<lparr>Duration := 1500000000\<rparr>"

text \<open>
  Two rides stored with the offset of UTC, starting at 08:30 and at 22:00 on March 10th
  2020, and times of that day in a location three hours west of UTC.
\<close>

definition at_0830 :: Time where
  "at_0830 = \<lparr>Year = 2020, Month = 3, Day = 10, Nanos = 30600000000000, Offset = 0\<rparr>"

definition at_2200 :: Time where
  "at_2200 = \<lparr>Year = 2020, Month = 3, Day = 10, Nanos = 79200000000000, Offset = 0\<rparr>"

definition west_0800 :: Time where
  "west_0800 = \<lparr>Year = 2020, Month = 3, Day = 10, Nanos = 28800000000000, Offset = - 10800\<rparr>"

definition west_0900 :: Time where
  "west_0900 = \<lparr>Year = 2020, Month = 3, Day = 10, Nanos = 32400000000000, Offset = - 10800\<rparr>"

definition west_2100 :: Time where
  "west_2100 = \<lparr>Year = 2020, Month = 3, Day = 10, Nanos = 75600000000000, Offset = - 10800\<rparr>"

definition zonedRides :: store where
  "zonedRides =
     emptyStore\<lparr>workouts := [workoutRow ''dan'' (ride 7 at_0830), workoutRow ''dan'' (ride 8 at_2200)]\<rparr>"

text \<open>
  \<^verbatim>\<open>t.String()\<close> for the sample times: the times in UTC come from \<^verbatim>\<open>time.Parse\<close>, the
  others from the clock of a location named \<^verbatim>\<open>-03\<close> and carry a monotonic reading.
\<close>

definition sampleString :: "Time \<Rightarrow> string" where
  "sampleString t =
     (if Offset t = 0 then TimeString ''UTC'' t
      else TimeString ''-03'' t @ '' m=+0.000040000'')"

section \<open>Properties of the machine numbers\<close>

subsection \<open>Rounding to float64\<close>

lemma ilog2_le:
  assumes "0 < x"
  shows "2 powi (ilog2 x) \<le> x"
proof -
  obtain a b where q: "quotient_of x = (a, b)" by force
  have b: "0 < b" by (rule quotient_of_denom_pos[OF q])
  have x: "x = of_int a / of_int b" by (rule quotient_of_div[OF q])
  from assms x b have a: "0 < a"
    by (simp add: zero_less_divide_iff)
  define k where "k = bitlen a - bitlen b"
  show ?thesis
  proof (cases "2 powi k \<le> x")
    case True
    then show ?thesis by (simp add: ilog2_def q k_def)
  next
    case False
    from bitlen_bounds[OF a] have la: "2 ^ nat (bitlen a - 1) \<le> a" by simp
    from bitlen_bounds[OF b] have lb: "b < 2 ^ nat (bitlen b)" by simp
    from a have pa: "1 \<le> bitlen a" by (simp add: bitlen_alt_def)
    have "k - 1 = (bitlen a - 1) - bitlen b"
      by (simp add: k_def)
    then have "(2::rat) powi (k - 1) = 2 powi ((bitlen a - 1) - bitlen b)"
      by (rule arg_cong)
    also have "\<dots> = 2 powi (bitlen a - 1) / 2 powi (bitlen b)"
      by (rule power_int_diff) simp
    also have "\<dots> = 2 ^ nat (bitlen a - 1) / 2 ^ nat (bitlen b)"
      using pa bitlen_nonneg[of b] by (simp add: power_int_nonneg_exp)
    also have "\<dots> \<le> of_int a / of_int b"
    proof (rule frac_le)
      from a show "(0::rat) \<le> of_int a" by simp
      from la have "(of_int (2 ^ nat (bitlen a - 1)) :: rat) \<le> of_int a"
        by (simp only: of_int_le_iff)
      then show "(2::rat) ^ nat (bitlen a - 1) \<le> of_int a" by simp
      from b show "(0::rat) < of_int b" by simp
      from lb have "(of_int b :: rat) \<le> of_int (2 ^ nat (bitlen b))"
        by (simp only: of_int_le_iff less_imp_le)
      then show "(of_int b :: rat) \<le> 2 ^ nat (bitlen b)" by simp
    qed
    finally have "(2::rat) powi (k - 1) \<le> x" by (simp add: x)
    with False show ?thesis by (simp add: ilog2_def q k_def)
  qed
qed

lemma roundEven_bounds: "\<lfloor>y\<rfloor> \<le> roundEven y \<and> roundEven y \<le> \<lceil>y\<rceil>"
proof -
  have "y - of_int \<lfloor>y\<rfloor> \<noteq> 0 \<Longrightarrow> \<lceil>y\<rceil> = \<lfloor>y\<rfloor> + 1"
    by (simp add: ceiling_altdef)
  moreover have "y - of_int \<lfloor>y\<rfloor> = 0 \<Longrightarrow> roundEven y = \<lfloor>y\<rfloor>"
    by (simp add: roundEven_def Let_def)
  moreover have "\<lfloor>y\<rfloor> \<le> \<lceil>y\<rceil>" by (simp add: floor_le_ceiling)
  ultimately show ?thesis
    by (cases "y - of_int \<lfloor>y\<rfloor> = 0") (auto simp: roundEven_def Let_def)
qed

lemma roundEven_of_int: "roundEven (of_int n) = n"
  by (simp add: roundEven_def Let_def)

lemma roundEven_error: "\<bar>of_int (roundEven y) - y\<bar> \<le> 1 / 2"
proof -
  have f: "of_int \<lfloor>y\<rfloor> \<le> y" "y < of_int \<lfloor>y\<rfloor> + 1"
    using floor_correct[of y] by simp_all
  then show ?thesis
    by (auto simp: roundEven_def Let_def abs_le_iff)
qed

text \<open>The exponent of the last place that \<open>fl64\<close> rounds to.\<close>

lemma fl64_unfold:
  assumes "x \<noteq> 0"
  shows "fl64 x = of_int (roundEven (x / 2 powi (max (ilog2 \<bar>x\<bar> - 52) (- 1074))))
           * 2 powi (max (ilog2 \<bar>x\<bar> - 52) (- 1074))"
  using assms by (simp add: fl64_def Let_def)

lemma ilog2_small:
  assumes "x \<noteq> 0" and "\<bar>x\<bar> < 2 ^ 53"
  shows "ilog2 \<bar>x\<bar> \<le> 52"
proof (rule ccontr)
  assume "\<not> ilog2 \<bar>x\<bar> \<le> 52"
  then have "53 \<le> ilog2 \<bar>x\<bar>" by simp
  then have "(2::rat) powi 53 \<le> 2 powi (ilog2 \<bar>x\<bar>)"
    by (intro power_int_increasing) simp_all
  also have "\<dots> \<le> \<bar>x\<bar>"
    using assms(1) by (intro ilog2_le) simp
  finally show False using assms(2) by simp
qed

lemma fl64_error:
  "\<bar>fl64 x - x\<bar> \<le> \<bar>x\<bar> / 2 ^ 53 + 1 / 2 ^ 1075"
proof (cases "x = 0")
  case True
  then show ?thesis by (simp add: fl64_def)
next
  case False
  define q where "q = max (ilog2 \<bar>x\<bar> - 52) (- 1074)"
  define g :: rat where "g = 2 powi q"
  have g: "0 < g" by (simp add: g_def)
  have "fl64 x - x = (of_int (roundEven (x / g)) - x / g) * g"
    using g by (simp add: fl64_unfold[OF False] q_def g_def algebra_simps)
  then have "\<bar>fl64 x - x\<bar> = \<bar>of_int (roundEven (x / g)) - x / g\<bar> * g"
    using g by (simp add: abs_mult)
  also have "\<dots> \<le> (1 / 2) * g"
    using g roundEven_error[of "x / g"] by (intro mult_right_mono) simp_all
  also have "\<dots> \<le> \<bar>x\<bar> / 2 ^ 53 + 1 / 2 ^ 1075"
  proof (cases "- 1074 \<le> ilog2 \<bar>x\<bar> - 52")
    case True
    then have "g = 2 powi (ilog2 \<bar>x\<bar> - 52)" by (simp add: g_def q_def)
    also have "\<dots> = 2 powi (ilog2 \<bar>x\<bar>) / 2 powi 52"
      by (rule power_int_diff) simp
    also have "\<dots> \<le> \<bar>x\<bar> / 2 powi 52"
      using False by (intro divide_right_mono ilog2_le) simp_all
    finally have "g \<le> \<bar>x\<bar> / 2 ^ 52" by simp
    then have "(1 / 2) * g \<le> \<bar>x\<bar> / 2 ^ 53" by simp
    then show ?thesis by simp
  next
    case False
    then have "g = 2 powi (- 1074)" by (simp add: g_def q_def)
    then have "(1 / 2) * g = 1 / 2 ^ 1075"
      by (simp add: power_int_minus_divide)
    then show ?thesis by simp
  qed
  finally show ?thesis .
qed

lemma fl64_grid:
  assumes "\<bar>x\<bar> < 2 ^ 53"
  shows "(of_int n \<le> x \<longrightarrow> of_int n \<le> fl64 x) \<and> (x \<le> of_int n \<longrightarrow> fl64 x \<le> of_int n)"
proof (cases "x = 0")
  case True
  then show ?thesis by (simp add: fl64_def)
next
  case False
  define q where "q = max (ilog2 \<bar>x\<bar> - 52) (- 1074)"
  define m where "m = nat (- q)"
  from ilog2_small[OF False assms] have q: "q \<le> 0" by (simp add: q_def)
  then have "q = - int m" by (simp add: m_def)
  then have p: "(2::rat) powi q = 1 / 2 ^ m"
    by (simp add: power_int_minus_divide)
  have f: "fl64 x = of_int (roundEven (x * 2 ^ m)) / 2 ^ m"
    by (simp add: fl64_unfold[OF False] q_def[symmetric] p)
  have lo: "of_int n \<le> fl64 x" if "of_int n \<le> x"
  proof -
    from that have "of_int n * 2 ^ m \<le> x * (2::rat) ^ m"
      by (intro mult_right_mono) simp_all
    then have "(of_int (n * 2 ^ m) :: rat) \<le> x * 2 ^ m" by simp
    then have "n * 2 ^ m \<le> \<lfloor>x * 2 ^ m\<rfloor>" by (simp only: le_floor_iff)
    also have "\<dots> \<le> roundEven (x * 2 ^ m)" using roundEven_bounds by blast
    finally have "(of_int (n * 2 ^ m) :: rat) \<le> of_int (roundEven (x * 2 ^ m))"
      by (simp only: of_int_le_iff)
    then have "of_int n * (2::rat) ^ m \<le> of_int (roundEven (x * 2 ^ m))" by simp
    then show ?thesis by (simp add: f pos_le_divide_eq)
  qed
  have hi: "fl64 x \<le> of_int n" if "x \<le> of_int n"
  proof -
    from that have "x * (2::rat) ^ m \<le> of_int n * 2 ^ m"
      by (intro mult_right_mono) simp_all
    then have "x * 2 ^ m \<le> (of_int (n * 2 ^ m) :: rat)" by simp
    then have "\<lceil>x * 2 ^ m\<rceil> \<le> n * 2 ^ m" by (simp only: ceiling_le_iff)
    moreover have "roundEven (x * 2 ^ m) \<le> \<lceil>x * 2 ^ m\<rceil>" using roundEven_bounds by blast
    ultimately have "roundEven (x * 2 ^ m) \<le> n * 2 ^ m"
      by linarith
    then have "(of_int (roundEven (x * 2 ^ m)) :: rat) \<le> of_int (n * 2 ^ m)"
      by (simp only: of_int_le_iff)
    then have "of_int (roundEven (x * 2 ^ m)) \<le> of_int n * (2::rat) ^ m" by simp
    then show ?thesis by (simp add: f pos_divide_le_eq)
  qed
  from lo hi show ?thesis by blast
qed

lemma fl64_of_int:
  assumes "\<bar>n\<bar> < 2 ^ 53"
  shows "fl64 (of_int n) = of_int n"
proof -
  from assms have "\<bar>of_int n :: rat\<bar> < of_int (2 ^ 53)"
    by (simp only: of_int_abs[symmetric] of_int_less_iff)
  then have "\<bar>of_int n :: rat\<bar> < 2 ^ 53" by simp
  from fl64_grid[OF this, of n] show ?thesis by simp
qed

lemma fl64_floor_ceiling:
  assumes "\<bar>x\<bar> < 2 ^ 53"
  shows "of_int \<lfloor>x\<rfloor> \<le> fl64 x" and "fl64 x \<le> of_int \<lceil>x\<rceil>"
  using fl64_grid[OF assms, of "\<lfloor>x\<rfloor>"] fl64_grid[OF assms, of "\<lceil>x\<rceil>"] by simp_all

subsection \<open>Integer helpers\<close>

lemma wrap64_id: "int64 n \<Longrightarrow> wrap64 n = n"
  by (simp add: wrap64_def int64_def)

lemma toInt64_of_int: "int64 n \<Longrightarrow> toInt64 (of_int n) = n"
  by (simp add: toInt64_def truncRat_def int64_def Let_def)

lemma quotT_remT: "b * quotT a b + remT a b = a"
  by (simp add: remT_def)

lemma quotT_abs:
  assumes "0 < b"
  shows "\<bar>quotT a b\<bar> = \<bar>a\<bar> div b"
proof -
  from assms have "0 \<le> \<bar>a\<bar> div b"
    by (simp add: pos_imp_zdiv_nonneg_iff)
  with assms show ?thesis
    by (cases "a = 0") (simp_all add: quotT_def abs_mult abs_sgn_eq)
qed

lemma remT_abs:
  assumes "0 < b"
  shows "\<bar>remT a b\<bar> = \<bar>a\<bar> mod b"
proof -
  have "remT a b = sgn a * (\<bar>a\<bar> - b * (\<bar>a\<bar> div b))"
    using assms by (simp add: remT_def quotT_def algebra_simps mult_sgn_abs)
       (metis mult.commute mult_sgn_abs)
  also have "\<bar>a\<bar> - b * (\<bar>a\<bar> div b) = \<bar>a\<bar> mod b"
    by (simp add: minus_mult_div_eq_mod)
  finally have "\<bar>remT a b\<bar> = \<bar>sgn a\<bar> * \<bar>\<bar>a\<bar> mod b\<bar>"
    by (simp add: abs_mult)
  also have "\<dots> = \<bar>a\<bar> mod b"
    using assms by (cases "a = 0") (simp_all add: abs_sgn_eq)
  finally show ?thesis .
qed

lemma quotT_Second_bound:
  assumes "int64 d"
  shows "\<bar>quotT d Second\<bar> \<le> 9223372036"
proof -
  from assms have "\<bar>d\<bar> \<le> 9223372036854775808"
    by (simp add: int64_def abs_le_iff)
  then have "\<bar>d\<bar> div 1000000000 \<le> 9223372036854775808 div 1000000000"
    by (rule zdiv_mono1) simp
  then show ?thesis
    by (simp add: quotT_abs Second_def)
qed

lemma remT_Second_bound: "\<bar>remT d Second\<bar> < 1000000000"
  by (simp add: remT_abs Second_def)

subsection \<open>Seconds of a duration\<close>

lemma Seconds_whole:
  assumes "int64 d" and "remT d Second = 0"
  shows "Seconds d = of_int (quotT d Second)" and "quotT d Second * Second = d"
proof -
  from quotT_Second_bound[OF assms(1)] have "\<bar>quotT d Second\<bar> < 2 ^ 53" by simp
  then have "fl64 (of_int (quotT d Second)) = of_int (quotT d Second)"
    by (rule fl64_of_int)
  then show "Seconds d = of_int (quotT d Second)"
    by (simp add: Seconds_def assms(2) fl64_def)
  from quotT_remT[of Second d] assms(2) show "quotT d Second * Second = d"
    by (simp add: mult.commute)
qed

lemma Seconds_error:
  assumes "int64 d"
  shows "\<bar>Seconds d - of_int d / 1000000000\<bar> < 1 / 262144"
proof -
  define a where "a = quotT d Second"
  define r where "r = remT d Second"
  define B where "B = fl64 (of_int r / 1000000000)"
  have a: "\<bar>a\<bar> \<le> 9223372036" unfolding a_def by (rule quotT_Second_bound[OF assms])
  have r: "\<bar>r\<bar> < 1000000000" unfolding r_def by (rule remT_Second_bound)
  have d: "of_int d = (of_int a :: rat) * 1000000000 + of_int r"
  proof -
    have "d = Second * a + r" by (simp add: a_def r_def quotT_remT)
    then have "of_int d = (of_int (Second * a + r) :: rat)" by simp
    then show ?thesis by (simp add: Second_def)
  qed
  from a have fa: "fl64 (of_int a) = of_int a" by (intro fl64_of_int) simp
  from r have fr: "fl64 (of_int r) = of_int r" by (intro fl64_of_int) simp
  have S: "Seconds d = fl64 (of_int a + B)"
    by (simp add: Seconds_def a_def[symmetric] r_def[symmetric] fa fr B_def)
  have tiny: "(1::rat) / 2 ^ 1075 \<le> 1 / 2 ^ 53"
    by (intro divide_left_mono power_increasing) simp_all
  have rq: "\<bar>of_int r / 1000000000 :: rat\<bar> \<le> 1"
  proof -
    from r have "\<bar>r\<bar> \<le> 1000000000" by simp
    then have "\<bar>of_int r :: rat\<bar> \<le> of_int 1000000000"
      by (simp only: of_int_abs[symmetric] of_int_le_iff)
    then show ?thesis by simp
  qed
  have eB: "\<bar>B - of_int r / 1000000000\<bar> \<le> 2 / 2 ^ 53"
  proof -
    have "\<bar>B - of_int r / 1000000000\<bar>
        \<le> \<bar>of_int r / 1000000000 :: rat\<bar> / 2 ^ 53 + 1 / 2 ^ 1075"
      unfolding B_def by (rule fl64_error)
    also have "\<dots> \<le> 1 / 2 ^ 53 + 1 / 2 ^ 53"
      using rq tiny by (intro add_mono divide_right_mono) simp_all
    finally show ?thesis by simp
  qed
  have bB: "\<bar>B\<bar> \<le> 2"
  proof -
    have "\<bar>B\<bar> \<le> \<bar>B - of_int r / 1000000000\<bar> + \<bar>of_int r / 1000000000 :: rat\<bar>"
      by simp
    also have "\<dots> \<le> 2 / 2 ^ 53 + 1" using eB rq by (rule add_mono)
    finally show ?thesis by simp
  qed
  have bA: "\<bar>of_int a :: rat\<bar> \<le> 9223372036"
  proof -
    from a have "\<bar>of_int a :: rat\<bar> \<le> of_int 9223372036"
      by (simp only: of_int_abs[symmetric] of_int_le_iff)
    then show ?thesis by simp
  qed
  have bS: "\<bar>of_int a + B\<bar> \<le> 9223372038"
  proof -
    have "\<bar>of_int a + B\<bar> \<le> \<bar>of_int a :: rat\<bar> + \<bar>B\<bar>" by (rule abs_triangle_ineq)
    also have "\<dots> \<le> 9223372036 + 2" using bA bB by (rule add_mono)
    finally show ?thesis by simp
  qed
  have eS: "\<bar>Seconds d - (of_int a + B)\<bar> \<le> 9223372039 / 2 ^ 53"
  proof -
    have "\<bar>Seconds d - (of_int a + B)\<bar> \<le> \<bar>of_int a + B\<bar> / 2 ^ 53 + 1 / 2 ^ 1075"
      unfolding S by (rule fl64_error)
    also have "\<dots> \<le> 9223372038 / 2 ^ 53 + 1 / 2 ^ 53"
      using bS tiny by (intro add_mono divide_right_mono) simp_all
    finally show ?thesis by simp
  qed
  have "Seconds d - of_int d / 1000000000
      = (Seconds d - (of_int a + B)) + (B - of_int r / 1000000000)"
    by (simp add: d add_divide_distrib)
  then have "\<bar>Seconds d - of_int d / 1000000000\<bar>
      \<le> \<bar>Seconds d - (of_int a + B)\<bar> + \<bar>B - of_int r / 1000000000\<bar>"
    by (simp only: abs_triangle_ineq)
  also have "\<dots> \<le> 9223372039 / 2 ^ 53 + 2 / 2 ^ 53"
    using eS eB by (rule add_mono)
  also have "\<dots> < 1 / 262144" by simp
  finally show ?thesis .
qed

lemma readElapsed_Seconds:
  assumes "int64 d" and "remT d Millisecond = 0"
  shows "readElapsed (Seconds d) = d"
proof -
  define k where "k = quotT d Millisecond"
  from quotT_remT[of Millisecond d] assms(2) have d: "d = k * 1000000"
    by (simp add: k_def Millisecond_def)
  have "of_int d / 1000000000 * 1000 = (of_int k :: rat)"
    by (simp add: d)
  then have "Seconds d * 1000 - of_int k = (Seconds d - of_int d / 1000000000) * 1000"
    by (simp add: algebra_simps)
  then have "\<bar>Seconds d * 1000 - of_int k\<bar> = \<bar>(Seconds d - of_int d / 1000000000) * 1000\<bar>"
    by (rule arg_cong)
  also have "\<dots> = \<bar>Seconds d - of_int d / 1000000000\<bar> * \<bar>1000\<bar>"
    by (rule abs_mult)
  also have "\<dots> = \<bar>Seconds d - of_int d / 1000000000\<bar> * 1000"
    by simp
  also have "\<dots> < 1 / 262144 * 1000"
    using Seconds_error[OF assms(1)] by (intro mult_strict_right_mono) simp_all
  also have "\<dots> < 1 / 2" by simp
  finally have "round (Seconds d * 1000) = k"
    by (rule round_unique')
  then show ?thesis
    by (simp add: readElapsed_def d Millisecond_def)
qed

subsection \<open>The elapsed offset of a decoded pair\<close>

lemma elapsedDuration_value:
  assumes "0 \<le> s" and "s * 1000 < 9223372036854"
  shows "elapsedDuration s = \<lfloor>fl64 (s * 1000)\<rfloor> * Millisecond"
    and "\<lfloor>s * 1000\<rfloor> \<le> \<lfloor>fl64 (s * 1000)\<rfloor>"
    and "\<lfloor>fl64 (s * 1000)\<rfloor> \<le> \<lfloor>s * 1000\<rfloor> + 1"
proof -
  define x where "x = s * 1000"
  from assms have x: "0 \<le> x" "x < 9223372036854" by (simp_all add: x_def)
  then have small: "\<bar>x\<bar> < 2 ^ 53" by simp
  note fc = fl64_floor_ceiling[OF small]
  from x(1) have f0: "0 \<le> \<lfloor>x\<rfloor>" by simp
  from x(2) have f1: "\<lfloor>x\<rfloor> < 9223372036854" by (simp add: floor_less_iff)
  have lo: "\<lfloor>x\<rfloor> \<le> \<lfloor>fl64 x\<rfloor>"
    using fc(1) by (simp add: le_floor_iff)
  have "\<lceil>x\<rceil> \<le> \<lfloor>x\<rfloor> + 1" using ceiling_diff_floor_le_1[of x] by simp
  then have "(of_int \<lceil>x\<rceil> :: rat) \<le> of_int (\<lfloor>x\<rfloor> + 1)" by (simp only: of_int_le_iff)
  with fc(2) have "fl64 x \<le> of_int (\<lfloor>x\<rfloor> + 1)" by (rule order_trans)
  then have "\<lfloor>fl64 x\<rfloor> \<le> \<lfloor>of_int (\<lfloor>x\<rfloor> + 1) :: rat\<rfloor>" by (rule floor_mono)
  then have hi: "\<lfloor>fl64 x\<rfloor> \<le> \<lfloor>x\<rfloor> + 1" by (simp only: floor_of_int)
  from f0 have "(0::rat) \<le> of_int \<lfloor>x\<rfloor>" by (simp only: of_int_0_le_iff)
  then have p: "0 \<le> fl64 x" using fc(1) by (rule order_trans)
  then have t: "truncRat (fl64 x) = \<lfloor>fl64 x\<rfloor>" by (simp add: truncRat_def)
  from lo f0 have k0: "0 \<le> \<lfloor>fl64 x\<rfloor>" by (rule order_trans[rotated])
  from hi f1 have k1: "\<lfloor>fl64 x\<rfloor> \<le> 9223372036854" by linarith
  from k0 k1 have "toInt64 (fl64 x) = \<lfloor>fl64 x\<rfloor>"
    by (simp add: toInt64_def t Let_def)
  moreover have "int64 (\<lfloor>fl64 x\<rfloor> * Millisecond)"
  proof -
    define k where "k = \<lfloor>fl64 x\<rfloor>"
    from k0 k1 have "0 \<le> k" "k \<le> 9223372036854" by (simp_all only: k_def)
    then have "- 9223372036854775808 \<le> k * 1000000 \<and> k * 1000000 \<le> 9223372036854775807"
      by linarith
    then show ?thesis by (simp only: int64_def Millisecond_def k_def)
  qed
  ultimately show "elapsedDuration s = \<lfloor>fl64 (s * 1000)\<rfloor> * Millisecond"
    by (simp add: elapsedDuration_def x_def[symmetric] wrap64_id)
  from lo show "\<lfloor>s * 1000\<rfloor> \<le> \<lfloor>fl64 (s * 1000)\<rfloor>" by (simp add: x_def)
  from hi show "\<lfloor>fl64 (s * 1000)\<rfloor> \<le> \<lfloor>s * 1000\<rfloor> + 1" by (simp add: x_def)
qed


section \<open>Properties of the gain scrape\<close>

text \<open>
  C6. For a gain page that was fetched with status 200 and parsed: when the anchor row
  of the elevation table is absent, \<open>fillGainData\<close> succeeds and leaves the workout as
  it was (so a gain of 0 stays 0); when the row is present and its first header text is
  not "Gain", it returns an error; when the header reads "Gain" and the trimmed cell
  text is empty or "--", it succeeds and leaves the workout as it was; when the trimmed
  cell text parses as an integer \<open>n\<close>, it succeeds with the gain set to \<open>n\<close>; any other
  cell text yields an error. Trimming removes the white space of Unicode from both ends
  of the cell text (\<open>TrimSpace\<close>).
\<close>

theorem fillGainData_cases:
  assumes "workout_page c (ID wk) = Reply 200 (Inr elem)"
  shows "(elem = [] \<longrightarrow> fillGainData c wk = Inr wk)
   \<and> (elem \<noteq> [] \<and> firstText (concat (map th_texts elem)) \<noteq> ''Gain'' \<longrightarrow>
      (\<exists>e. fillGainData c wk = Inl (Error e)))
   \<and> (elem \<noteq> [] \<and> firstText (concat (map th_texts elem)) = ''Gain'' \<and>
      TrimSpace (firstText (concat (map td_span_texts elem))) \<in> {'''', ''--''} \<longrightarrow>
      fillGainData c wk = Inr wk)
   \<and> (elem \<noteq> [] \<and> firstText (concat (map th_texts elem)) = ''Gain'' \<and>
      TrimSpace (firstText (concat (map td_span_texts elem))) \<notin> {'''', ''--''} \<and>
      Atoi (TrimSpace (firstText (concat (map td_span_texts elem)))) = Some n \<longrightarrow>
      fillGainData c wk = Inr (wk\<lparr>Gain := n\<rparr>))
   \<and> (elem \<noteq> [] \<and> firstText (concat (map th_texts elem)) = ''Gain'' \<and>
      TrimSpace (firstText (concat (map td_span_texts elem))) \<notin> {'''', ''--''} \<and>
      Atoi (TrimSpace (firstText (concat (map td_span_texts elem)))) = None \<longrightarrow>
      (\<exists>e. fillGainData c wk = Inl (Error e)))"
  using assms by (auto simp: fillGainData_def Let_def split: option.splits)

lemma gain_cell_10: "Atoi (TrimSpace ''   10      '') = Some 10"
  by code_simp

lemma gain_cell_ten: "Atoi (TrimSpace ''ten'') = None"
  by code_simp

lemma gain_cell_trimmed:
  "TrimSpace ''   10      '' = ''10''" "TrimSpace '' '' = []" "TrimSpace ''--'' = ''--''"
  "TrimSpace ''ten'' = ''ten''" "TrimSpace [CHR 0xC2, CHR 0xA0] = []"
  by code_simp+

theorem fillGainData_cases_witness:
  "fillGainData (pageClient []) zeroWorkout = Inr zeroWorkout
   \<and> fillGainData (pageClient [gainRow ''Gain'' ''   10      '']) zeroWorkout
       = Inr (zeroWorkout\<lparr>Gain := 10\<rparr>)
   \<and> fillGainData (pageClient [gainRow ''Gain'' '' '']) zeroWorkout = Inr zeroWorkout
   \<and> fillGainData (pageClient [gainRow ''Gain'' ''--'']) zeroWorkout = Inr zeroWorkout
   \<and> fillGainData (pageClient [gainRow ''Gain'' [CHR 0xC2, CHR 0xA0]]) zeroWorkout
       = Inr zeroWorkout
   \<and> isl (fillGainData (pageClient [gainRow ''Start'' ''61'']) zeroWorkout)
   \<and> isl (fillGainData (pageClient [gainRow ''Gain'' ''ten'']) zeroWorkout)"
proof -
  have p: "\<And>page. workout_page (pageClient page) (ID zeroWorkout) = Reply 200 (Inr page)"
    by (simp add: pageClient_def)
  have "fillGainData (pageClient []) zeroWorkout = Inr zeroWorkout"
    using fillGainData_cases[OF p, of "[]"] by simp
  moreover have "fillGainData (pageClient [gainRow ''Gain'' ''   10      '']) zeroWorkout
      = Inr (zeroWorkout\<lparr>Gain := 10\<rparr>)"
    using fillGainData_cases[OF p, of "[gainRow ''Gain'' ''   10      '']" 10] gain_cell_10
    by (simp add: gainRow_def firstText_def gain_cell_trimmed)
  moreover have "fillGainData (pageClient [gainRow ''Gain'' '' '']) zeroWorkout = Inr zeroWorkout"
    using fillGainData_cases[OF p, of "[gainRow ''Gain'' '' '']"]
    by (simp add: gainRow_def firstText_def gain_cell_trimmed)
  moreover have "fillGainData (pageClient [gainRow ''Gain'' ''--'']) zeroWorkout = Inr zeroWorkout"
    using fillGainData_cases[OF p, of "[gainRow ''Gain'' ''--'']"]
    by (simp add: gainRow_def firstText_def gain_cell_trimmed)
  moreover have "fillGainData (pageClient [gainRow ''Gain'' [CHR 0xC2, CHR 0xA0]]) zeroWorkout
      = Inr zeroWorkout"
    using fillGainData_cases[OF p, of "[gainRow ''Gain'' [CHR 0xC2, CHR 0xA0]]"]
    by (simp add: gainRow_def firstText_def gain_cell_trimmed)
  moreover have "isl (fillGainData (pageClient [gainRow ''Start'' ''61'']) zeroWorkout)"
    using fillGainData_cases[OF p, of "[gainRow ''Start'' ''61'']"]
    by (auto simp: gainRow_def firstText_def)
  moreover have "isl (fillGainData (pageClient [gainRow ''Gain'' ''ten'']) zeroWorkout)"
    using fillGainData_cases[OF p, of "[gainRow ''Gain'' ''ten'']"] gain_cell_ten
    by (auto simp: gainRow_def firstText_def gain_cell_trimmed)
  ultimately show ?thesis by simp
qed

section \<open>Properties of the month buckets\<close>

lemma Date_first:
  assumes "1 \<le> m" "m \<le> 12"
  shows "Date y m 1 0 0 = \<lparr>Year = y, Month = m, Day = 1, Nanos = 0, Offset = 0\<rparr>"
proof -
  have "normDay y m 1 = (y, m, 1)"
    using daysIn_bounds[of y m] by (simp add: normDay_id)
  then show ?thesis
    by (simp add: Date_def normMonth_idem[OF assms] nsPerDay_def)
qed

lemma monthIndex_divmod:
  assumes "1 \<le> Month t" "Month t \<le> 12"
  shows "monthIndex t div 12 = Year t" and "monthIndex t mod 12 = Month t - 1"
proof -
  have e: "monthIndex t = 12 * Year t + (Month t - 1)"
    by (simp add: monthIndex_def)
  show "monthIndex t div 12 = Year t"
    by (rule int_div_pos_eq[where r = "Month t - 1"]) (use e assms in simp_all)
  show "monthIndex t mod 12 = Month t - 1"
    by (rule int_mod_pos_eq[where q = "Year t"]) (use e assms in simp_all)
qed

lemma norm_time_firstOfMonth:
  assumes "1 \<le> Month t" "Month t \<le> 12"
  shows "norm_time t = firstOfMonth (monthIndex t)"
  by (simp add: norm_time_def Date_first[OF assms] firstOfMonth_def monthIndex_divmod[OF assms])

lemma firstOfMonth_month: "1 \<le> Month (firstOfMonth n) \<and> Month (firstOfMonth n) \<le> 12"
  by (simp add: firstOfMonth_def)

lemma monthIndex_firstOfMonth: "monthIndex (firstOfMonth n) = n"
  by (simp add: monthIndex_def firstOfMonth_def)

lemma AddDate_firstOfMonth: "AddDate (firstOfMonth n) 0 1 0 = firstOfMonth (n + 1)"
proof -
  have i: "normMonth (n div 12) (n mod 12 + 1) = (n div 12, n mod 12 + 1)"
    by (rule normMonth_idem) simp_all
  have d: "(n + 1) div 12 = (if n mod 12 = 11 then n div 12 + 1 else n div 12)"
    "(n + 1) mod 12 = (if n mod 12 = 11 then 0 else n mod 12 + 1)"
    using next_month_divmod[of "n + 1"] by simp_all
  have "normMonth (n div 12) ((n mod 12 + 1) + 1) =
      (if n mod 12 + 1 = 12 then (n div 12 + 1, 1) else (n div 12, (n mod 12 + 1) + 1))"
    unfolding normMonth_next[of "n div 12" "n mod 12 + 1"] i by simp
  also have "\<dots> = ((n + 1) div 12, (n + 1) mod 12 + 1)"
    unfolding d by (cases "n mod 12 = 11") simp_all
  finally have "normMonth (n div 12) (n mod 12 + 1 + 1) = ((n + 1) div 12, (n + 1) mod 12 + 1)" .
  moreover have "normDay ((n + 1) div 12) ((n + 1) mod 12 + 1) 1
      = ((n + 1) div 12, (n + 1) mod 12 + 1, 1)"
    using daysIn_bounds[of "(n + 1) div 12" "(n + 1) mod 12 + 1"] by (simp add: normDay_id)
  ultimately show ?thesis
    by (simp add: AddDate_def Date_def firstOfMonth_def nsPerDay_def)
qed

lemma firstOfMonth_step: "unixNano (firstOfMonth n) < unixNano (firstOfMonth (n + 1))"
  using AddDate_month_later[of "firstOfMonth n"] by (simp add: AddDate_firstOfMonth)

lemma firstOfMonth_strict_mono:
  assumes "n < k"
  shows "unixNano (firstOfMonth n) < unixNano (firstOfMonth k)"
  using assms
proof (induction k rule: int_gr_induct)
  case base
  show ?case by (rule firstOfMonth_step)
next
  case (step i)
  from step.IH firstOfMonth_step[of i] show ?case by simp
qed

lemma Before_firstOfMonth: "Before (firstOfMonth n) (firstOfMonth k) \<longleftrightarrow> n < k"
proof
  assume b: "Before (firstOfMonth n) (firstOfMonth k)"
  show "n < k"
  proof (rule ccontr)
    assume "\<not> n < k"
    then have "k = n \<or> k < n" by auto
    then have "unixNano (firstOfMonth k) \<le> unixNano (firstOfMonth n)"
      using firstOfMonth_strict_mono[of k n] by auto
    with b show False by (simp add: Before_def)
  qed
next
  assume "n < k"
  then show "Before (firstOfMonth n) (firstOfMonth k)"
    by (simp add: Before_def firstOfMonth_strict_mono)
qed

lemma months_loop_firstOfMonth:
  "months_loop (firstOfMonth n) (firstOfMonth k) out = out @ map firstOfMonth [n + 1..k]"
proof (induction "nat (k - n)" arbitrary: n out)
  case 0
  then have "\<not> n < k" by simp
  then show ?case
    by (simp add: months_loop.simps[of "firstOfMonth n"] Before_firstOfMonth)
next
  case (Suc d)
  then have lt: "n < k" and d: "d = nat (k - (n + 1))" by simp_all
  have "months_loop (firstOfMonth n) (firstOfMonth k) out
      = months_loop (firstOfMonth (n + 1)) (firstOfMonth k) (out @ [firstOfMonth (n + 1)])"
    using lt
    by (simp add: months_loop.simps[of "firstOfMonth n"] Before_firstOfMonth AddDate_firstOfMonth
        Let_def)
  also have "\<dots> = (out @ [firstOfMonth (n + 1)]) @ map firstOfMonth [n + 1 + 1..k]"
    by (rule Suc.hyps(1)[OF d])
  also have "\<dots> = out @ map firstOfMonth [n + 1..k]"
    using lt by (simp add: upto_rec1[of "n + 1" k])
  finally show ?case .
qed

lemma months_eq:
  assumes b: "1 \<le> Month begin" "Month begin \<le> 12" and e: "1 \<le> Month en" "Month en \<le> 12"
  shows "months begin en =
     firstOfMonth (monthIndex begin) # map firstOfMonth [monthIndex begin + 1..monthIndex en]"
  by (simp add: months_def norm_time_firstOfMonth[OF b] norm_time_firstOfMonth[OF e]
      months_loop_firstOfMonth)


lemma unixNano_split:
  assumes "1 \<le> Month t" "Month t \<le> 12"
  shows "unixNano t = unixNano (firstOfMonth (monthIndex t))
           + (Day t - 1) * nsPerDay - Offset t * 1000000000 + Nanos t"
proof -
  have "unixNano (firstOfMonth (monthIndex t))
      = daysSinceEpoch (Year t) (Month t) 1 * 86400 * 1000000000"
    by (simp add: unixNano_def firstOfMonth_def monthIndex_divmod[OF assms])
  moreover have "daysSinceEpoch (Year t) (Month t) (Day t)
      = daysSinceEpoch (Year t) (Month t) 1 + Day t - 1"
    by (rule daysSinceEpoch_day)
  ultimately show ?thesis
    by (simp add: unixNano_def[of t] nsPerDay_def algebra_simps)
qed

lemma firstOfMonth_next:
  "unixNano (firstOfMonth (n + 1)) =
     unixNano (firstOfMonth n) + daysIn (n div 12) (n mod 12 + 1) * nsPerDay"
proof -
  have i: "normMonth (n div 12) (n mod 12 + 1) = (n div 12, n mod 12 + 1)"
    by (rule normMonth_idem) simp_all
  show ?thesis
    using unixNano_AddDate_month[of "firstOfMonth n"]
    by (simp add: AddDate_firstOfMonth) (simp add: firstOfMonth_def i)
qed

lemma monthIndex_mono:
  assumes vt: "validTime t" and vu: "validTime u"
    and off: "Offset t = Offset u" and le: "unixNano t \<le> unixNano u"
  shows "monthIndex t \<le> monthIndex u"
proof (rule ccontr)
  assume "\<not> monthIndex t \<le> monthIndex u"
  then have "monthIndex u + 1 = monthIndex t \<or> monthIndex u + 1 < monthIndex t"
    by auto
  then have "unixNano (firstOfMonth (monthIndex u + 1)) \<le> unixNano (firstOfMonth (monthIndex t))"
    using firstOfMonth_strict_mono[of "monthIndex u + 1" "monthIndex t"] by auto
  then have a: "unixNano (firstOfMonth (monthIndex u))
        + daysIn (Year u) (Month u) * nsPerDay \<le> unixNano (firstOfMonth (monthIndex t))"
    using vu by (simp add: firstOfMonth_next monthIndex_divmod validTime_def)
  have t: "unixNano (firstOfMonth (monthIndex t)) - Offset t * 1000000000 \<le> unixNano t"
  proof -
    from vt have "0 \<le> (Day t - 1) * nsPerDay"
      by (simp add: validTime_def nsPerDay_def)
    with vt show ?thesis
      by (simp add: unixNano_split[of t] validTime_def)
  qed
  have u: "unixNano u <
      unixNano (firstOfMonth (monthIndex u)) + daysIn (Year u) (Month u) * nsPerDay
        - Offset u * 1000000000"
  proof -
    from vu have "Day u \<le> daysIn (Year u) (Month u)"
      by (simp add: validTime_def)
    then have "Day u * nsPerDay \<le> daysIn (Year u) (Month u) * nsPerDay"
      by (rule mult_right_mono) (simp add: nsPerDay_def)
    moreover from vu have "Nanos u < nsPerDay"
      by (simp add: validTime_def)
    ultimately have "(Day u - 1) * nsPerDay + Nanos u < daysIn (Year u) (Month u) * nsPerDay"
      by (simp add: algebra_simps)
    with vu show ?thesis
      by (simp add: unixNano_split[of u] validTime_def)
  qed
  from a t u off le show False by simp
qed

lemma Before_upto: "sorted_wrt Before (map firstOfMonth [a..b])"
  by (simp add: sorted_wrt_map Before_firstOfMonth)

text \<open>
  C7 (amended). For valid times \<open>begin\<close> and \<open>end\<close> such that the calendar month of
  \<open>begin\<close>, read in its own location, is not later than the calendar month of \<open>end\<close>, read
  in its own location (as is the case whenever \<open>begin \<le> end\<close> and both carry the same UTC
  offset), \<open>months begin end\<close> is the contiguous ascending list of the first-of-month
  instants (midnight UTC) of every month from the month of \<open>begin\<close> through the month of
  \<open>end\<close> inclusive, and it is exactly one bucket when both fall in the same month.
\<close>

theorem months_covers:
  assumes "validTime begin" and "validTime en"
    and "monthIndex begin \<le> monthIndex en
         \<or> (Offset begin = Offset en \<and> unixNano begin \<le> unixNano en)"
  shows "months begin en = map firstOfMonth [monthIndex begin..monthIndex en]
     \<and> sorted_wrt Before (months begin en)
     \<and> hd (months begin en) = norm_time begin
     \<and> last (months begin en) = norm_time en
     \<and> int (length (months begin en)) = monthIndex en - monthIndex begin + 1
     \<and> (monthIndex begin = monthIndex en \<longrightarrow> months begin en = [norm_time begin])"
proof -
  from assms(1) have b: "1 \<le> Month begin" "Month begin \<le> 12"
    by (simp_all add: validTime_def)
  from assms(2) have e: "1 \<le> Month en" "Month en \<le> 12"
    by (simp_all add: validTime_def)
  from assms have le: "monthIndex begin \<le> monthIndex en"
    using monthIndex_mono[of "begin" en] by auto
  have m: "months begin en = map firstOfMonth [monthIndex begin..monthIndex en]"
    using le by (simp add: months_eq[OF b e] upto_rec1[of "monthIndex begin" "monthIndex en"])
  have ne: "[monthIndex begin..monthIndex en] \<noteq> []"
    using le by simp
  have h: "hd (months begin en) = norm_time begin"
    using le by (simp add: months_eq[OF b e] norm_time_firstOfMonth[OF b])
  have l: "last (months begin en) = norm_time en"
    using le ne by (simp add: m last_map norm_time_firstOfMonth[OF e] upto_rec2[of "monthIndex begin" "monthIndex en"])
  have s: "monthIndex begin = monthIndex en \<longrightarrow> months begin en = [norm_time begin]"
    by (simp add: months_eq[OF b e] norm_time_firstOfMonth[OF b])
  from m h l s le show ?thesis
    by (simp add: Before_upto)
qed


theorem months_covers_witness:
  "validTime day_2010_11_05 \<and> validTime day_2011_04_01
   \<and> monthIndex day_2010_11_05 \<le> monthIndex day_2011_04_01
   \<and> months day_2010_11_05 day_2011_04_01 =
       [\<lparr>Year = 2010, Month = 11, Day = 1, Nanos = 0, Offset = 0\<rparr>,
        \<lparr>Year = 2010, Month = 12, Day = 1, Nanos = 0, Offset = 0\<rparr>,
        \<lparr>Year = 2011, Month = 1, Day = 1, Nanos = 0, Offset = 0\<rparr>,
        \<lparr>Year = 2011, Month = 2, Day = 1, Nanos = 0, Offset = 0\<rparr>,
        \<lparr>Year = 2011, Month = 3, Day = 1, Nanos = 0, Offset = 0\<rparr>,
        \<lparr>Year = 2011, Month = 4, Day = 1, Nanos = 0, Offset = 0\<rparr>]"
proof -
  have v: "validTime day_2010_11_05" "validTime day_2011_04_01"
    by code_simp+
  have i: "monthIndex day_2010_11_05 \<le> monthIndex day_2011_04_01"
    by code_simp
  have "months day_2010_11_05 day_2011_04_01 =
      map firstOfMonth [monthIndex day_2010_11_05..monthIndex day_2011_04_01]"
    using months_covers[OF v] i by simp
  also have "\<dots> =
       [\<lparr>Year = 2010, Month = 11, Day = 1, Nanos = 0, Offset = 0\<rparr>,
        \<lparr>Year = 2010, Month = 12, Day = 1, Nanos = 0, Offset = 0\<rparr>,
        \<lparr>Year = 2011, Month = 1, Day = 1, Nanos = 0, Offset = 0\<rparr>,
        \<lparr>Year = 2011, Month = 2, Day = 1, Nanos = 0, Offset = 0\<rparr>,
        \<lparr>Year = 2011, Month = 3, Day = 1, Nanos = 0, Offset = 0\<rparr>,
        \<lparr>Year = 2011, Month = 4, Day = 1, Nanos = 0, Offset = 0\<rparr>]"
    by code_simp
  finally show ?thesis using v i by simp
qed

text \<open>
  C7 as stated, for every pair of instants \<open>begin \<le> end\<close>, fails when the two times are
  read in different locations: \<open>zoned_begin\<close> is 2010-04-01 00:30 at UTC+1 and
  \<open>utc_end\<close> is 2010-03-31 23:45 UTC, a quarter of an hour later. The only bucket is
  April 2010, the month of \<open>end\<close> (March, in its own location and in UTC alike) is not
  covered, and in UTC both instants lie in March.
\<close>

theorem months_zones_counterexample:
  "validTime zoned_begin \<and> validTime utc_end \<and> unixNano zoned_begin \<le> unixNano utc_end
   \<and> months zoned_begin utc_end = [\<lparr>Year = 2010, Month = 4, Day = 1, Nanos = 0, Offset = 0\<rparr>]
   \<and> norm_time utc_end = \<lparr>Year = 2010, Month = 3, Day = 1, Nanos = 0, Offset = 0\<rparr>
   \<and> norm_time utc_end \<notin> set (months zoned_begin utc_end)
   \<and> Year (UTC zoned_begin) = 2010 \<and> Month (UTC zoned_begin) = 3
   \<and> Year (UTC utc_end) = 2010 \<and> Month (UTC utc_end) = 3"
  by code_simp

section \<open>Properties of the listing\<close>

text \<open>
  An entry that passes the month and date filters and whose \<^verbatim>\<open>view_url\<close> has at least
  three segments yields the workout whose id is the integer of the third segment, or a
  returned error when that segment is not an integer.
\<close>

lemma listEntry_id:
  assumes "ParseInLocation (rw_Date rw) = Some dt"
    and "Year dt = year" and "Month dt = month"
    and "\<not> Before dt beginDate" and "\<not> After dt endDate"
    and "2 < length (splitOn CHR ''/'' (rw_ViewURL rw))"
  shows "(case Atoi (splitOn CHR ''/'' (rw_ViewURL rw) ! 2) of
           Some i \<Rightarrow> \<exists>wk. listEntry year month beginDate endDate rw = Inr (Some wk) \<and> ID wk = i
         | None \<Rightarrow> \<exists>e. listEntry year month beginDate endDate rw = Inl (Error e))"
  using assms
  by (auto simp: listEntry_def Let_def listedWorkout_def split: option.splits)

lemma listEntry_short_path:
  assumes "ParseInLocation (rw_Date rw) = Some dt"
    and "Year dt = year" and "Month dt = month"
    and "\<not> Before dt beginDate" and "\<not> After dt endDate"
    and "length (splitOn CHR ''/'' (rw_ViewURL rw)) \<le> 2"
  shows "\<exists>p. listEntry year month beginDate endDate rw = Inl (Panic p)"
  using assms by (simp add: listEntry_def Let_def)

text \<open>
  C9. The claim that every malformed \<^verbatim>\<open>view_url\<close>, one with fewer than three segments
  included, makes \<open>getMonthWorkoutsForRange\<close> return an error fails on the code: for the
  entry dated 03/10/2020 with \<^verbatim>\<open>view_url\<close> "/workout" (two segments) the index expression
  \<^verbatim>\<open>viewURLParts[2]\<close> panics. A non-numeric third segment does return an error, and a
  numeric one gives the id.
\<close>

theorem getMonthWorkoutsForRange_short_view_url_panics:
  "getMonthWorkoutsForRange (listingClient [listed ''03/10/2020'' ''/workout'']) 2020 3
       day_2020_03_01 day_2020_03_31
     = Inl (Panic ''index out of range [2]'')
   \<and> getMonthWorkoutsForRange (listingClient [listed ''03/10/2020'' '''']) 2020 3
       day_2020_03_01 day_2020_03_31
     = Inl (Panic ''index out of range [2]'')
   \<and> getMonthWorkoutsForRange (listingClient [listed ''03/10/2020'' ''/workout/abc'']) 2020 3
       day_2020_03_01 day_2020_03_31
     = Inl (Error ''converting to id: /workout/abc'')
   \<and> map ID (projr (getMonthWorkoutsForRange
        (listingClient [listed ''03/10/2020'' ''/workout/123'']) 2020 3
        day_2020_03_01 day_2020_03_31)) = [123]"
  by code_simp

section \<open>Properties of the store\<close>

subsection \<open>Running statements\<close>

lemma execAll_append:
  "execAll flt k (xs @ ys) s =
     (case execAll flt k xs s of Inl e \<Rightarrow> Inl e | Inr (k', s') \<Rightarrow> execAll flt k' ys s')"
  by (induction xs arbitrary: k s) (auto split: sum.splits)

lemma execAll_counter:
  "execAll flt k sts s = Inr (k', s') \<Longrightarrow> k' = k + length sts"
  by (induction sts arbitrary: k s) (fastforce split: sum.splits)+

lemma execAll_fault:
  "k \<le> j \<Longrightarrow> j < k + length sts \<Longrightarrow> flt j \<Longrightarrow> isl (execAll flt k sts s)"
proof (induction sts arbitrary: k s)
  case Nil
  then show ?case by simp
next
  case (Cons st sts)
  show ?case
  proof (cases "j = k")
    case True
    with Cons.prems show ?thesis by (simp add: ExecContext_def)
  next
    case False
    with Cons.prems have "Suc k \<le> j" "j < Suc k + length sts" by simp_all
    from Cons.IH[OF this Cons.prems(3)] show ?thesis
      by (simp split: sum.splits)
  qed
qed

text \<open>A run that succeeds under some faults is the run without faults.\<close>

lemma noFaults_never: "noFaults k = False"
  by (simp add: noFaults_def)

lemma execAll_noFaults:
  "execAll flt k sts s = Inr (k', s') \<Longrightarrow> execAll noFaults k sts s = Inr (k', s')"
  by (induction sts arbitrary: k s)
     (auto simp: ExecContext_def noFaults_never split: sum.splits if_splits)

lemma insert_distances:
  "execAll noFaults k (map (\<lambda>d. InsertDistance (f d)) ds) s =
     Inr (k + length ds, s\<lparr>workout_distances := workout_distances s @ map f ds\<rparr>)"
  by (induction ds arbitrary: k s) (simp_all add: ExecContext_def noFaults_never)

lemma insert_positions:
  "execAll noFaults k (map (\<lambda>d. InsertPosition (f d)) ds) s =
     Inr (k + length ds, s\<lparr>workout_positions := workout_positions s @ map f ds\<rparr>)"
  by (induction ds arbitrary: k s) (simp_all add: ExecContext_def noFaults_never)

lemma insert_speeds:
  "execAll noFaults k (map (\<lambda>d. InsertSpeed (f d)) ds) s =
     Inr (k + length ds, s\<lparr>workout_speeds := workout_speeds s @ map f ds\<rparr>)"
  by (induction ds arbitrary: k s) (simp_all add: ExecContext_def noFaults_never)

lemma insert_steps:
  "execAll noFaults k (map (\<lambda>d. InsertStep (f d)) ds) s =
     Inr (k + length ds, s\<lparr>workout_steps := workout_steps s @ map f ds\<rparr>)"
  by (induction ds arbitrary: k s) (simp_all add: ExecContext_def noFaults_never)

lemma deletes_and_parent:
  "execAll noFaults (Suc 0)
     (map (\<lambda>t. DeleteChild t (ID w)) [T_steps, T_speeds, T_positions, T_distances]
      @ [DeleteWorkout (ID w)] @ [InsertWorkout (workoutRow u w)]) db =
   Inr (7, \<lparr>workouts = filter (\<lambda>r. w_id r \<noteq> ID w) (workouts db) @ [workoutRow u w],
            workout_distances = filter (\<lambda>r. d_workout_id r \<noteq> ID w) (workout_distances db),
            workout_positions = filter (\<lambda>r. p_workout_id r \<noteq> ID w) (workout_positions db),
            workout_speeds = filter (\<lambda>r. s_workout_id r \<noteq> ID w) (workout_speeds db),
            workout_steps = filter (\<lambda>r. t_workout_id r \<noteq> ID w) (workout_steps db)\<rparr>)"
  by (auto simp: ExecContext_def noFaults_never workoutRow_def eval_nat_numeral)

lemma syncStmts_noFaults:
  "execAll noFaults (Suc 0) (syncStmts u w) db =
     Inr (Suc (length (syncStmts u w)), replaceWorkout u w db)"
proof -
  have "execAll noFaults (Suc 0) (syncStmts u w) db =
      execAll noFaults (Suc 0)
        ((map (\<lambda>t. DeleteChild t (ID w)) [T_steps, T_speeds, T_positions, T_distances]
          @ [DeleteWorkout (ID w)] @ [InsertWorkout (workoutRow u w)])
         @ (map (\<lambda>d. InsertDistance (distanceRow w d)) (Distances w)
            @ (map (\<lambda>p. InsertPosition (positionRow w p)) (Positions w)
               @ (map (\<lambda>s. InsertSpeed (speedRow w s)) (Speeds w)
                  @ map (\<lambda>s. InsertStep (stepRow w s)) (Steps w))))) db"
    by (simp add: syncStmts_def)
  also have "\<dots> = Inr (7 + length (Distances w) + length (Positions w) + length (Speeds w)
      + length (Steps w), replaceWorkout u w db)"
    unfolding execAll_append[of noFaults _ "_ @ _ @ _"] deletes_and_parent
    by (simp add: execAll_append insert_distances insert_positions insert_speeds insert_steps
        replaceWorkout_def)
  also have "7 + length (Distances w) + length (Positions w) + length (Speeds w)
      + length (Steps w) = Suc (length (syncStmts u w))"
    by (simp add: syncStmts_def)
  finally show ?thesis .
qed

lemma sync_noFaults: "sync noFaults u w db = (Inr (), replaceWorkout u w db)"
  by (simp add: sync_def syncStmts_noFaults noFaults_never)

lemma sync_success:
  assumes "sync flt u w db = (Inr (), db')"
  shows "db' = replaceWorkout u w db"
proof -
  from assms obtain k where "execAll flt (Suc 0) (syncStmts u w) db = Inr (k, db')"
    by (auto simp: sync_def split: if_splits sum.splits)
  from execAll_noFaults[OF this] show ?thesis
    by (simp add: syncStmts_noFaults)
qed

lemma sync_failure: "isl (fst (sync flt u w db)) \<Longrightarrow> snd (sync flt u w db) = db"
  by (auto simp: sync_def split: if_splits sum.splits)

lemma sync_outcome: "snd (sync flt u w db) = db \<or> snd (sync flt u w db) = replaceWorkout u w db"
proof (cases "sync flt u w db")
  case (Pair r db')
  show ?thesis
  proof (cases r)
    case (Inl e)
    with Pair sync_failure[of flt u w db] show ?thesis by simp
  next
    case (Inr x)
    with Pair sync_success[of flt u w db db'] show ?thesis by simp
  qed
qed

lemma replaceWorkout_idem:
  "replaceWorkout u w (replaceWorkout u w db) = replaceWorkout u w db"
  by (simp add: replaceWorkout_def workoutRow_def distanceRow_def positionRow_def speedRow_def
      stepRow_def filter_empty_conv)

subsection \<open>The upsert\<close>

text \<open>
  C3. For every user, workout and starting state: when a run of \<open>sync\<close> has succeeded, a
  second run with the same arguments leaves the store (the parent table and the four
  sample tables) identical to the state after the first run, whatever happens to the
  second run; and without database faults the two runs in succession succeed and give
  the same state as one run.
\<close>

theorem sync_twice:
  "(fst (sync flt1 u w db) = Inr () \<longrightarrow>
      snd (sync flt2 u w (snd (sync flt1 u w db))) = snd (sync flt1 u w db))
   \<and> sync noFaults u w (snd (sync noFaults u w db)) = sync noFaults u w db"
proof -
  have "snd (sync flt2 u w (snd (sync flt1 u w db))) = snd (sync flt1 u w db)"
    if ok: "fst (sync flt1 u w db) = Inr ()"
  proof -
    from ok have "sync flt1 u w db = (Inr (), snd (sync flt1 u w db))"
      by (metis prod.collapse)
    then have r: "snd (sync flt1 u w db) = replaceWorkout u w db"
      by (rule sync_success)
    from sync_outcome[of flt2 u w "replaceWorkout u w db"] show ?thesis
      by (auto simp: r replaceWorkout_idem)
  qed
  then show ?thesis
    by (simp add: sync_noFaults replaceWorkout_idem)
qed

theorem sync_twice_witness:
  "fst (sync noFaults ''dan'' tracedRide storedRides) = Inr ()
   \<and> snd (sync (failAt 3) ''dan'' tracedRide (snd (sync noFaults ''dan'' tracedRide storedRides)))
       = snd (sync noFaults ''dan'' tracedRide storedRides)
   \<and> snd (sync noFaults ''dan'' tracedRide (snd (sync noFaults ''dan'' tracedRide storedRides)))
       = snd (sync noFaults ''dan'' tracedRide storedRides)"
proof -
  have ok: "fst (sync noFaults ''dan'' tracedRide storedRides) = Inr ()"
    by (simp add: sync_noFaults)
  from ok sync_twice[of noFaults "''dan''" tracedRide storedRides "failAt 3"]
    sync_twice[of noFaults "''dan''" tracedRide storedRides noFaults]
  show ?thesis by simp
qed

text \<open>
  C4. For every user and workout: when \<open>sync\<close> returns an error, the store afterwards is
  exactly the store before the call; and a fault at any call of the run (\<^verbatim>\<open>BeginTx\<close>,
  any of the child-table deletes, the parent delete, the parent insert, any child
  insert, or the commit) makes it return an error, so leaves the store untouched.
\<close>

theorem sync_atomic:
  "(isl (fst (sync flt u w db)) \<longrightarrow> snd (sync flt u w db) = db)
   \<and> (\<forall>j \<le> Suc (length (syncStmts u w)).
        flt j \<longrightarrow> isl (fst (sync flt u w db)) \<and> snd (sync flt u w db) = db)"
proof -
  have a: "isl (fst (sync flt u w db))" if j: "j \<le> Suc (length (syncStmts u w))" "flt j" for j
  proof (cases "flt 0")
    case True
    then show ?thesis by (simp add: sync_def)
  next
    case False
    show ?thesis
    proof (cases "execAll flt (Suc 0) (syncStmts u w) db")
      case (Inl e)
      with False show ?thesis by (simp add: sync_def)
    next
      case (Inr r)
      obtain k tx where r: "r = (k, tx)" by force
      from Inr r have k: "k = Suc (length (syncStmts u w))"
        using execAll_counter[of flt "Suc 0" "syncStmts u w" db k tx] by simp
      have "j = k"
      proof (rule ccontr)
        assume "j \<noteq> k"
        with j(1) k False j(2) have "Suc 0 \<le> j" "j < Suc 0 + length (syncStmts u w)"
          by (auto intro: Suc_leI neq0_conv[THEN iffD1] elim: contrapos_np)
        from execAll_fault[of "Suc 0" j "syncStmts u w" flt db, OF this j(2)] Inr
        show False by simp
      qed
      with j(2) Inr r False show ?thesis by (simp add: sync_def)
    qed
  qed
  show ?thesis
    using a sync_failure[of flt u w db] by blast
qed

theorem sync_atomic_witness:
  "(7::nat) \<le> Suc (length (syncStmts ''dan'' tracedRide))
   \<and> isl (fst (sync (failAt 7) ''dan'' tracedRide storedRides))
   \<and> snd (sync (failAt 7) ''dan'' tracedRide storedRides) = storedRides"
proof -
  have l: "(7::nat) \<le> Suc (length (syncStmts ''dan'' tracedRide))"
    by (simp add: syncStmts_def tracedRide_def trace_def)
  have f: "failAt 7 7"
    by (simp add: failAt_def)
  from sync_atomic[of "failAt 7" "''dan''" tracedRide storedRides] l f
  show ?thesis by blast
qed

subsection \<open>Removing what was not fetched\<close>

lemma quotT_60: "quotT (quotT a 60 * 60) 60 = quotT a 60"
proof -
  define q where "q = \<bar>a\<bar> div 60"
  have q: "0 \<le> q"
    by (simp add: q_def pos_imp_zdiv_nonneg_iff)
  have "quotT a 60 = sgn a * q"
    by (simp add: quotT_def q_def)
  moreover have "quotT (sgn a * q * 60) 60 = sgn a * q"
  proof (cases "q = 0")
    case True
    then show ?thesis by (simp add: quotT_def)
  next
    case False
    with q have "0 < q" by simp
    then show ?thesis
      by (cases "a = 0") (simp_all add: quotT_def abs_mult sgn_mult abs_sgn_eq)
  qed
  ultimately show ?thesis by simp
qed

text \<open>The text written out from a stored time is the text that was stored.\<close>

lemma timeFormatText_Format: "timeFormatText (Format t) = timeFormatText t"
  by (simp add: timeFormatText_def Format_def civilText_def zoneText_def quotT_60)

lemma started_at_text:
  "timeFormatText (w_started_at (workoutRow u w)) = timeFormatText (StartedAt w)"
  by (simp add: workoutRow_def timeFormatText_Format)

text \<open>
  C2 does not hold of the code. The statement of \<open>removeExtra\<close> compares the text stored
  for \<open>started_at\<close> with the texts bound for \<open>begin\<close> and \<open>end\<close>, so it orders the times by
  the date and time of day as written and not by the instants they denote; the two
  orders differ as soon as the zone offsets do. The rides 7 and 8 are stored for one
  user with the offset of UTC and start at 08:30 and at 22:00; nothing was fetched.

  For the range from 08:00 to 09:00 in a location three hours west of UTC (11:00 to
  12:00 UTC), ride 7 starts before the range and must be left alone, yet it is deleted.
  For the range from March 1st 00:00 UTC to 21:00 three hours west of UTC (midnight
  UTC), which is how the command builds its range from a day given on the command line
  and the current local time, ride 8 starts inside the range and must be deleted, yet it
  is kept. Both happen with the text of either driver. \<open>GetWorkouts\<close>, which selects the
  workouts of the same range, compares instants.
\<close>

theorem removeExtra_compares_text:
  "timeFormatText (w_started_at (workoutRow ''dan'' (ride 7 at_0830)))
     = ''2020-03-10 08:30:00+00:00''
   \<and> timeFormatText west_0800 = ''2020-03-10 08:00:00-03:00''
   \<and> timeFormatText west_0900 = ''2020-03-10 09:00:00-03:00''
   \<and> sampleString west_0800 = ''2020-03-10 08:00:00 -0300 -03 m=+0.000040000''
   \<and> sampleString day_2020_03_01 = ''2020-03-01 00:00:00 +0000 UTC''
   \<and> unixNano at_0830 < unixNano west_0800
   \<and> fst (removeExtra noFaults timeFormatText ''dan'' west_0800 west_0900 [] zonedRides) = Inr ()
   \<and> map w_id (workouts (snd
        (removeExtra noFaults timeFormatText ''dan'' west_0800 west_0900 [] zonedRides))) = [8]
   \<and> map w_id (workouts (snd
        (removeExtra noFaults sampleString ''dan'' west_0800 west_0900 [] zonedRides))) = [8]
   \<and> unixNano day_2020_03_01 \<le> unixNano at_2200 \<and> unixNano at_2200 \<le> unixNano west_2100
   \<and> map w_id (workouts (snd
        (removeExtra noFaults timeFormatText ''dan'' day_2020_03_01 west_2100 [] zonedRides)))
       = [8]
   \<and> map w_id (workouts (snd
        (removeExtra noFaults sampleString ''dan'' day_2020_03_01 west_2100 [] zonedRides)))
       = [8]"
  by code_simp

text \<open>
  C10. \<open>removeExtra\<close> deletes rows of the parent table only: after any call the rows of
  \<open>workout_distances\<close>, \<open>workout_positions\<close>, \<open>workout_speeds\<close> and \<open>workout_steps\<close> are
  unchanged; so when it deletes the parent row of a workout (ids being unique in the
  parent table), no parent row of that id is left while the sample rows of the id stay.
\<close>

theorem removeExtra_keeps_samples:
  "workout_distances (snd (removeExtra flt bindTime u begin end ws db)) = workout_distances db
   \<and> workout_positions (snd (removeExtra flt bindTime u begin end ws db)) = workout_positions db
   \<and> workout_speeds (snd (removeExtra flt bindTime u begin end ws db)) = workout_speeds db
   \<and> workout_steps (snd (removeExtra flt bindTime u begin end ws db)) = workout_steps db
   \<and> (\<forall>r \<in> set (workouts db).
        \<not> flt 0 \<and> distinct (map w_id (workouts db)) \<and> isExtra bindTime u begin end ws r \<longrightarrow>
        w_id r \<notin> w_id ` set (workouts (snd (removeExtra flt bindTime u begin end ws db))))"
proof -
  have "w_id r \<notin> w_id ` set (filter (\<lambda>r. \<not> isExtra bindTime u begin end ws r) (workouts db))"
    if "r \<in> set (workouts db)" "distinct (map w_id (workouts db))"
      "isExtra bindTime u begin end ws r"
    for r
  proof
    assume "w_id r \<in> w_id ` set (filter (\<lambda>r. \<not> isExtra bindTime u begin end ws r) (workouts db))"
    then obtain r' where r': "r' \<in> set (workouts db)" "\<not> isExtra bindTime u begin end ws r'"
      "w_id r' = w_id r" by auto
    from that(2) have "inj_on w_id (set (workouts db))"
      by (simp add: distinct_map)
    with r' that(1) have "r' = r" by (auto dest: inj_onD)
    with r'(2) that(3) show False by simp
  qed
  then show ?thesis
    by (auto simp: removeExtra_def Let_def)
qed

theorem removeExtra_keeps_samples_witness:
  "map d_workout_id (workout_distances (snd (removeExtra noFaults timeFormatText ''dan''
        at_0732 at_0832 [ride 1 at_0732, ride 2 at_0733] storedRides))) = [3, 3]
   \<and> 3 \<notin> w_id ` set (workouts (snd (removeExtra noFaults timeFormatText ''dan''
        at_0732 at_0832 [ride 1 at_0732, ride 2 at_0733] storedRides)))"
proof -
  let ?ws = "[ride 1 at_0732, ride 2 at_0733]"
  let ?r = "workoutRow ''dan'' tracedRide"
  have r: "?r \<in> set (workouts storedRides)"
    by (simp add: storedRides_def)
  have d: "distinct (map w_id (workouts storedRides))"
    by code_simp
  have x: "isExtra timeFormatText ''dan'' at_0732 at_0832 ?ws ?r"
    by code_simp
  have i: "w_id ?r = 3"
    by code_simp
  have s: "map d_workout_id (workout_distances storedRides) = [3, 3]"
    by code_simp
  from removeExtra_keeps_samples[of noFaults timeFormatText "''dan''" at_0732 at_0832 ?ws
      storedRides] r d x i s
  show ?thesis
    by (auto simp: noFaults_never)
qed

section \<open>Properties of the range fetch\<close>

lemma fillLoop_result:
  "fillLoop c b e mwks acc = Inr out \<Longrightarrow>
     out = acc @ filter (startedWithin b e) (map (\<lambda>wk. projr (fillWorkout c wk)) mwks)
     \<and> (\<forall>wk \<in> set mwks. \<not> isl (fillWorkout c wk))"
proof (induction mwks arbitrary: acc)
  case Nil
  then show ?case by simp
next
  case (Cons wk mwks)
  from Cons.prems obtain wk' where f: "fillWorkout c wk = Inr wk'"
    by (auto split: sum.splits)
  show ?case
  proof (cases "Before (StartedAt wk') b \<or> After (StartedAt wk') e")
    case True
    then have n: "\<not> startedWithin b e wk'"
      by (auto simp: startedWithin_def Before_def After_def)
    from Cons.prems f True have "fillLoop c b e mwks acc = Inr out" by simp
    from Cons.IH[OF this] f n show ?thesis by simp
  next
    case False
    then have y: "startedWithin b e wk'"
      by (auto simp: startedWithin_def Before_def After_def)
    from Cons.prems f False have "fillLoop c b e mwks (acc @ [wk']) = Inr out" by simp
    from Cons.IH[OF this] f y show ?thesis by simp
  qed
qed

lemma monthsLoop_result:
  "monthsLoop c b e bd ed ms acc = Inr out \<Longrightarrow>
     out = acc @ concat (map (\<lambda>m. filter (startedWithin b e)
             (map (\<lambda>wk. projr (fillWorkout c wk))
               (projr (getMonthWorkoutsForRange c (Year m) (Month m) bd ed)))) ms)"
proof (induction ms arbitrary: acc)
  case Nil
  then show ?case by simp
next
  case (Cons m ms)
  from Cons.prems obtain mwks where
    g: "getMonthWorkoutsForRange c (Year m) (Month m) bd ed = Inr mwks"
    by (auto split: sum.splits)
  from Cons.prems g obtain acc' where
    l: "fillLoop c b e mwks acc = Inr acc'" and r: "monthsLoop c b e bd ed ms acc' = Inr out"
    by (auto split: sum.splits)
  from fillLoop_result[OF l] Cons.IH[OF r] g show ?case by simp
qed

lemma GetWorkouts_result:
  assumes "GetWorkouts c b e = Inr ws"
  shows "ws = sort_key (\<lambda>wk. unixNano (StartedAt wk))
           (concat (map (\<lambda>m. filter (startedWithin b e)
             (map (\<lambda>wk. projr (fillWorkout c wk))
               (projr (getMonthWorkoutsForRange c (Year m) (Month m) (toDate b) (toDate e)))))
             (months b e)))"
proof -
  from assms obtain out where
    m: "monthsLoop c b e (toDate b) (toDate e) (months b e) [] = Inr out"
    and w: "ws = sort_key (\<lambda>wk. unixNano (StartedAt wk)) out"
    by (auto simp: GetWorkouts_def split: sum.splits)
  from monthsLoop_result[OF m] w show ?thesis by simp
qed

text \<open>
  C1. When \<open>GetWorkouts c begin end\<close> succeeds, every workout it returns has its start
  instant in \<open>[begin, end]\<close>; and of the workouts that the month listings yield (after
  their date-only filter) and the enrichment fills, exactly those whose start instant is
  in \<open>[begin, end]\<close>, the two ends included, are returned, in ascending order of start
  instant. This holds for every \<open>begin\<close> and \<open>end\<close>, in particular for \<open>begin \<le> end\<close>.
\<close>

theorem GetWorkouts_range:
  assumes "GetWorkouts c begin end = Inr ws"
  shows "(\<forall>w \<in> set ws. unixNano begin \<le> unixNano (StartedAt w)
                       \<and> unixNano (StartedAt w) \<le> unixNano end)
   \<and> (\<forall>m \<in> set (months begin end). \<forall>mwks.
        getMonthWorkoutsForRange c (Year m) (Month m) (toDate begin) (toDate end) = Inr mwks \<longrightarrow>
        (\<forall>wk \<in> set mwks. \<forall>wk'. fillWorkout c wk = Inr wk' \<longrightarrow>
           (wk' \<in> set ws \<longleftrightarrow>
              unixNano begin \<le> unixNano (StartedAt wk')
              \<and> unixNano (StartedAt wk') \<le> unixNano end)))
   \<and> sorted (map (\<lambda>w. unixNano (StartedAt w)) ws)"
proof -
  note r = GetWorkouts_result[OF assms]
  have a: "\<forall>w \<in> set ws. startedWithin begin end w"
    by (subst r) auto
  have b: "wk' \<in> set ws"
    if "m \<in> set (months begin end)"
      "getMonthWorkoutsForRange c (Year m) (Month m) (toDate begin) (toDate end) = Inr mwks"
      "wk \<in> set mwks" "fillWorkout c wk = Inr wk'" "startedWithin begin end wk'"
    for m mwks wk wk'
  proof -
    from that(3,4) have "wk' \<in> (\<lambda>wk. projr (fillWorkout c wk)) ` set mwks"
      by force
    with that(1,2,5) show ?thesis
      by (subst r) force
  qed
  have s: "sorted (map (\<lambda>w. unixNano (StartedAt w)) ws)"
    by (subst r) simp
  from a b s show ?thesis
    unfolding startedWithin_def by blast
qed

theorem GetWorkouts_range_witness:
  "\<not> isl (GetWorkouts rangeClient at_0732 at_0832)
   \<and> map ID (projr (GetWorkouts rangeClient at_0732 at_0832)) = [1, 2]
   \<and> map StartedAt (projr (GetWorkouts rangeClient at_0732 at_0832)) = [at_0732, at_0832]
   \<and> list_all (\<lambda>w. unixNano at_0732 \<le> unixNano (StartedAt w)
                  \<and> unixNano (StartedAt w) \<le> unixNano at_0832)
       (projr (GetWorkouts rangeClient at_0732 at_0832))"
proof -
  have n: "\<not> isl (GetWorkouts rangeClient at_0732 at_0832)"
    by code_simp
  then have ok: "GetWorkouts rangeClient at_0732 at_0832
      = Inr (projr (GetWorkouts rangeClient at_0732 at_0832))"
    by (cases "GetWorkouts rangeClient at_0732 at_0832") simp_all
  have i: "map ID (projr (GetWorkouts rangeClient at_0732 at_0832)) = [1, 2]"
    by code_simp
  have t: "map StartedAt (projr (GetWorkouts rangeClient at_0732 at_0832)) = [at_0732, at_0832]"
    by code_simp
  from GetWorkouts_range[OF ok]
  have "\<forall>w \<in> set (projr (GetWorkouts rangeClient at_0732 at_0832)).
      unixNano at_0732 \<le> unixNano (StartedAt w) \<and> unixNano (StartedAt w) \<le> unixNano at_0832"
    by blast
  then have "list_all (\<lambda>w. unixNano at_0732 \<le> unixNano (StartedAt w)
                  \<and> unixNano (StartedAt w) \<le> unixNano at_0832)
       (projr (GetWorkouts rangeClient at_0732 at_0832))"
    by (simp add: list_all_iff)
  with n i t show ?thesis by blast
qed

section \<open>Properties of the time-series decoding\<close>

text \<open>
  C8 (amended). For a time-series pair whose elapsed value is the float64 \<open>s\<close> with
  \<open>0 \<le> s\<close> and \<open>s * 1000 < 9223372036854\<close> (so that nothing leaves the range of
  \<^verbatim>\<open>int64\<close>), the decoded sample's \<open>Elapsed\<close> is a whole number of milliseconds: the
  float64 product of \<open>s\<close> and 1000, that is the exact product rounded to the nearest
  float64, truncated to an integer. It equals the exact product truncated to whole
  milliseconds or exceeds it by one millisecond, and equals it whenever the exact product
  is itself a float64. The four series kinds (distance, position, speed, steps) decode
  the elapsed value with the same expression.
\<close>

theorem elapsed_decoding:
  assumes "0 \<le> s" and "s * 1000 < 9223372036854"
  shows "elapsedDuration s = \<lfloor>fl64 (s * 1000)\<rfloor> * Millisecond
   \<and> \<lfloor>s * 1000\<rfloor> \<le> \<lfloor>fl64 (s * 1000)\<rfloor> \<and> \<lfloor>fl64 (s * 1000)\<rfloor> \<le> \<lfloor>s * 1000\<rfloor> + 1
   \<and> (fl64 (s * 1000) = s * 1000 \<longrightarrow> elapsedDuration s = \<lfloor>s * 1000\<rfloor> * Millisecond)
   \<and> (as_float_pairs v = Inr [(s, y)] \<longrightarrow>
        seriesLoop [(''distance'', v)] wk =
          Inr (wk\<lparr>Distances := Distances wk @
                 [\<lparr>dist_Elapsed = elapsedDuration s, dist_Total = y\<rparr>]\<rparr>)
        \<and> seriesLoop [(''speed'', v)] wk =
          Inr (wk\<lparr>Speeds := Speeds wk @
                 [\<lparr>spd_Elapsed = elapsedDuration s, spd_MetersPerSecond = y\<rparr>]\<rparr>)
        \<and> seriesLoop [(''steps'', v)] wk =
          Inr (wk\<lparr>Steps := Steps wk @
                 [\<lparr>stp_Elapsed = elapsedDuration s, stp_StepsInPeriod = y\<rparr>]\<rparr>))
   \<and> (as_raw_pairs v = Inr [(a, p)] \<and> as_float a = Inr s \<and> as_position p = Inr pos \<longrightarrow>
        seriesLoop [(''position'', v)] wk =
          Inr (wk\<lparr>Positions := Positions wk @ [pos\<lparr>pos_Elapsed := elapsedDuration s\<rparr>]\<rparr>))"
proof -
  note e = elapsedDuration_value[OF assms]
  from e(1) have "fl64 (s * 1000) = s * 1000 \<longrightarrow> elapsedDuration s = \<lfloor>s * 1000\<rfloor> * Millisecond"
    by simp
  with e show ?thesis by simp
qed

theorem elapsed_decoding_witness:
  "0 \<le> fl64 (1024 / 1000) \<and> fl64 (1024 / 1000) * 1000 < 9223372036854
   \<and> elapsedDuration (fl64 (1024 / 1000)) = 1024 * Millisecond
   \<and> seriesLoop [(''distance'', floatSeries [(fl64 (1024 / 1000), 10)])] zeroWorkout =
       Inr (zeroWorkout\<lparr>Distances := Distances zeroWorkout @
           [\<lparr>dist_Elapsed = elapsedDuration (fl64 (1024 / 1000)), dist_Total = 10\<rparr>]\<rparr>)"
proof -
  have h: "0 \<le> fl64 (1024 / 1000)" "fl64 (1024 / 1000) * 1000 < 9223372036854"
    by code_simp+
  have f: "\<lfloor>fl64 (fl64 (1024 / 1000) * 1000)\<rfloor> = 1024"
    by code_simp
  have v: "as_float_pairs (floatSeries [(fl64 (1024 / 1000), 10)])
      = Inr [(fl64 (1024 / 1000), 10)]"
    by (simp add: floatSeries_def)
  from elapsed_decoding[OF h, of "floatSeries [(fl64 (1024 / 1000), 10)]" 10 zeroWorkout] h f v
  show ?thesis by simp
qed

text \<open>
  C8 as stated, with exact rational arithmetic, fails on the code: for the float64
  nearest to 0.009 the exact product with 1000 is just below 9 and truncates to 8
  milliseconds, while the float64 product rounds to 9 and the decoder yields 9
  milliseconds. (Read on the decimal text instead: the JSON number 1.001 decodes to the
  float64 nearest to it, and the decoder yields 1000 milliseconds, not 1001.)
\<close>

theorem elapsed_exact_counterexample:
  "fl64 (9 / 1000) = 5188146770730811 / 576460752303423488
   \<and> elapsedDuration (fl64 (9 / 1000)) = 9 * Millisecond
   \<and> \<lfloor>fl64 (9 / 1000) * 1000\<rfloor> * Millisecond = 8 * Millisecond
   \<and> elapsedDuration (fl64 (9 / 1000)) \<noteq> \<lfloor>fl64 (9 / 1000) * 1000\<rfloor> * Millisecond
   \<and> map dist_Elapsed (Distances (projr
        (seriesLoop [(''distance'', floatSeries [(fl64 (9 / 1000), 25)])] zeroWorkout)))
       = [9 * Millisecond]
   \<and> elapsedDuration (fl64 (1001 / 1000)) = 1000 * Millisecond"
  by code_simp

section \<open>Properties of the round trip through the store\<close>

lemma find_after_filter:
  "find P (filter (\<lambda>r. \<not> P r) xs @ ys) = find P ys"
  by (induction xs) simp_all

lemma filter_after_filter:
  assumes "\<And>y. y \<in> set ys \<Longrightarrow> P y"
  shows "filter P (filter (\<lambda>r. \<not> P r) xs @ ys) = ys"
proof -
  have "filter P (filter (\<lambda>r. \<not> P r) xs) = []"
    by (induction xs) simp_all
  moreover from assms have "filter P ys = ys"
    by (simp add: filter_id_conv)
  ultimately show ?thesis by simp
qed

lemma toInt64_Seconds_whole:
  assumes "int64 d" and "remT d Second = 0"
  shows "toInt64 (Seconds d) * Second = d"
proof -
  from quotT_Second_bound[OF assms(1)] have "int64 (quotT d Second)"
    by (simp add: int64_def abs_le_iff)
  then have "toInt64 (of_int (quotT d Second)) = quotT d Second"
    by (rule toInt64_of_int)
  with Seconds_whole[OF assms] show ?thesis by simp
qed

lemma readWorkout_replaceWorkout:
  "readWorkout (replaceWorkout u w db) (ID w) =
     Some ((reread w)\<lparr>Duration := toInt64 (Seconds (Duration w)) * Second,
                      StartedAt := Format (StartedAt w), CreatedAt := Format (CreatedAt w),
                      UpdatedAt := Format (UpdatedAt w)\<rparr>)"
proof -
  have p: "find (\<lambda>r. w_id r = ID w) (workouts (replaceWorkout u w db)) = Some (workoutRow u w)"
    using find_after_filter[of "\<lambda>r. w_id r = ID w" "workouts db" "[workoutRow u w]"]
    by (simp add: replaceWorkout_def workoutRow_def)
  have d: "filter (\<lambda>r. d_workout_id r = ID w) (workout_distances (replaceWorkout u w db))
      = map (distanceRow w) (Distances w)"
    using filter_after_filter[of "map (distanceRow w) (Distances w)"
        "\<lambda>r. d_workout_id r = ID w" "workout_distances db"]
    by (auto simp: replaceWorkout_def distanceRow_def)
  have q: "filter (\<lambda>r. p_workout_id r = ID w) (workout_positions (replaceWorkout u w db))
      = map (positionRow w) (Positions w)"
    using filter_after_filter[of "map (positionRow w) (Positions w)"
        "\<lambda>r. p_workout_id r = ID w" "workout_positions db"]
    by (auto simp: replaceWorkout_def positionRow_def)
  have s: "filter (\<lambda>r. s_workout_id r = ID w) (workout_speeds (replaceWorkout u w db))
      = map (speedRow w) (Speeds w)"
    using filter_after_filter[of "map (speedRow w) (Speeds w)"
        "\<lambda>r. s_workout_id r = ID w" "workout_speeds db"]
    by (auto simp: replaceWorkout_def speedRow_def)
  have t: "filter (\<lambda>r. t_workout_id r = ID w) (workout_steps (replaceWorkout u w db))
      = map (stepRow w) (Steps w)"
    using filter_after_filter[of "map (stepRow w) (Steps w)"
        "\<lambda>r. t_workout_id r = ID w" "workout_steps db"]
    by (auto simp: replaceWorkout_def stepRow_def)
  show ?thesis
    unfolding readWorkout_def p d q s t
    by (simp add: reread_def workoutRow_def distanceRow_def positionRow_def speedRow_def
        stepRow_def comp_def)
qed

lemma readElapsed_Seconds_error:
  assumes "int64 e"
  shows "\<bar>readElapsed (Seconds e) - e\<bar> < Millisecond"
proof -
  define x where "x = Seconds e * 1000"
  define c :: rat where "c = of_int e / 1000000"
  have c: "of_int e / 1000000000 = c / 1000"
    by (simp add: c_def)
  from Seconds_error[OF assms] have "\<bar>x / 1000 - c / 1000\<bar> < 1 / 262144"
    by (simp add: x_def c)
  then have a: "\<bar>x - c\<bar> < 1 / 4"
    by linarith
  have b: "\<bar>of_int (round x) - x\<bar> \<le> 1 / 2"
    by (rule of_int_round_abs_le)
  from a b have "\<bar>of_int (round x) - c\<bar> < 1"
    by linarith
  then have "\<bar>of_int (round x) * 1000000 - (of_int e :: rat)\<bar> < 1000000"
    by (simp add: c_def abs_less_iff field_simps)
  then have "\<bar>(of_int (round x * 1000000 - e) :: rat)\<bar> < of_int 1000000"
    by simp
  then have "\<bar>round x * 1000000 - e\<bar> < 1000000"
    by (simp only: of_int_abs[symmetric] of_int_less_iff)
  then show ?thesis
    by (simp add: readElapsed_def x_def Millisecond_def)
qed

lemma reread_id:
  assumes "list_all (\<lambda>d. wholeMillis (dist_Elapsed d)) (Distances w)"
    and "list_all (\<lambda>p. wholeMillis (pos_Elapsed p)) (Positions w)"
    and "list_all (\<lambda>s. wholeMillis (spd_Elapsed s)) (Speeds w)"
    and "list_all (\<lambda>s. wholeMillis (stp_Elapsed s)) (Steps w)"
  shows "reread w = w"
proof -
  have "map (\<lambda>d. d\<lparr>dist_Elapsed := readElapsed (Seconds (dist_Elapsed d))\<rparr>) (Distances w)
      = Distances w"
    using assms(1) by (simp add: map_idI list_all_iff wholeMillis_def readElapsed_Seconds)
  moreover
  have "map (\<lambda>p. p\<lparr>pos_Elapsed := readElapsed (Seconds (pos_Elapsed p))\<rparr>) (Positions w)
      = Positions w"
    using assms(2) by (simp add: map_idI list_all_iff wholeMillis_def readElapsed_Seconds)
  moreover
  have "map (\<lambda>s. s\<lparr>spd_Elapsed := readElapsed (Seconds (spd_Elapsed s))\<rparr>) (Speeds w)
      = Speeds w"
    using assms(3) by (simp add: map_idI list_all_iff wholeMillis_def readElapsed_Seconds)
  moreover
  have "map (\<lambda>s. s\<lparr>stp_Elapsed := readElapsed (Seconds (stp_Elapsed s))\<rparr>) (Steps w)
      = Steps w"
    using assms(4) by (simp add: map_idI list_all_iff wholeMillis_def readElapsed_Seconds)
  ultimately show ?thesis
    by (simp add: reread_def)
qed

text \<open>
  C5 (amended). For every workout \<open>w\<close> whose \<open>Duration\<close> is a whole number of seconds and
  whose three timestamps have a zone offset of whole minutes: when \<open>sync\<close> has succeeded,
  reading the workout of \<open>w\<close>'s id back gives \<open>w\<close>'s parent fields unchanged (the duration
  included) and the four sample sequences in \<open>w\<close>'s order with \<open>w\<close>'s measurements, the
  elapsed offset of each sample being the nearest millisecond of the seconds stored for
  it. That offset is less than a millisecond from the sample's own, and is the sample's
  own when that is a whole number of milliseconds, so that then the workout read back is
  \<open>w\<close>. (Durations are in the range of \<^verbatim>\<open>int64\<close>.)
\<close>

theorem sync_roundtrip:
  assumes "fst (sync flt u w db) = Inr ()"
    and "int64 (Duration w)" and "remT (Duration w) Second = 0"
    and "Format (StartedAt w) = StartedAt w" and "Format (CreatedAt w) = CreatedAt w"
    and "Format (UpdatedAt w) = UpdatedAt w"
  shows "readWorkout (snd (sync flt u w db)) (ID w) = Some (reread w)
    \<and> (list_all (\<lambda>d. wholeMillis (dist_Elapsed d)) (Distances w)
       \<and> list_all (\<lambda>p. wholeMillis (pos_Elapsed p)) (Positions w)
       \<and> list_all (\<lambda>s. wholeMillis (spd_Elapsed s)) (Speeds w)
       \<and> list_all (\<lambda>s. wholeMillis (stp_Elapsed s)) (Steps w)
       \<longrightarrow> reread w = w)
    \<and> (\<forall>e. int64 e \<longrightarrow> \<bar>readElapsed (Seconds e) - e\<bar> < Millisecond)
    \<and> (\<forall>e. wholeMillis e \<longrightarrow> readElapsed (Seconds e) = e)"
proof -
  from assms(1) have "sync flt u w db = (Inr (), snd (sync flt u w db))"
    by (metis prod.collapse)
  then have r: "snd (sync flt u w db) = replaceWorkout u w db"
    by (rule sync_success)
  have "readWorkout (snd (sync flt u w db)) (ID w) = Some (reread w)"
    unfolding r readWorkout_replaceWorkout
    by (simp add: toInt64_Seconds_whole[OF assms(2,3)] assms(4-6) reread_def)
  then show ?thesis
    by (simp add: reread_id readElapsed_Seconds_error readElapsed_Seconds wholeMillis_def)
qed

theorem sync_roundtrip_witness:
  "fst (sync noFaults ''dan'' tracedRide storedRides) = Inr ()
   \<and> int64 (Duration tracedRide) \<and> remT (Duration tracedRide) Second = 0
   \<and> Format (StartedAt tracedRide) = StartedAt tracedRide
   \<and> Format (CreatedAt tracedRide) = CreatedAt tracedRide
   \<and> Format (UpdatedAt tracedRide) = UpdatedAt tracedRide
   \<and> list_all (\<lambda>d. wholeMillis (dist_Elapsed d)) (Distances tracedRide)
   \<and> readWorkout (snd (sync noFaults ''dan'' tracedRide storedRides)) 3 = Some tracedRide"
proof -
  have ok: "fst (sync noFaults ''dan'' tracedRide storedRides) = Inr ()"
    by (simp add: sync_noFaults)
  have h: "int64 (Duration tracedRide)" "remT (Duration tracedRide) Second = 0"
    "Format (StartedAt tracedRide) = StartedAt tracedRide"
    "Format (CreatedAt tracedRide) = CreatedAt tracedRide"
    "Format (UpdatedAt tracedRide) = UpdatedAt tracedRide"
    by code_simp+
  have l: "list_all (\<lambda>d. wholeMillis (dist_Elapsed d)) (Distances tracedRide)"
    "list_all (\<lambda>p. wholeMillis (pos_Elapsed p)) (Positions tracedRide)"
    "list_all (\<lambda>s. wholeMillis (spd_Elapsed s)) (Speeds tracedRide)"
    "list_all (\<lambda>s. wholeMillis (stp_Elapsed s)) (Steps tracedRide)"
    by code_simp+
  have i: "ID tracedRide = 3"
    by code_simp
  from sync_roundtrip[OF ok h] l i ok h show ?thesis
    by simp
qed

text \<open>
  C5 as stated fails on the code: \<open>sync\<close> binds the duration in whole seconds, so a
  workout lasting a second and a half is stored, and read back, as lasting one second,
  and it leaves the store in the very state that the workout lasting one second does (no
  reader can tell them apart). A timestamp in a location whose offset is not whole
  minutes is stored as a different instant.
\<close>

theorem sync_roundtrip_counterexample:
  "fst (sync noFaults ''dan'' shortRide emptyStore) = Inr ()
   \<and> Duration shortRide = 1500000000
   \<and> map_option Duration (readWorkout (snd (sync noFaults ''dan'' shortRide emptyStore)) 3)
       = Some 1000000000
   \<and> readWorkout (snd (sync noFaults ''dan'' shortRide emptyStore)) (ID shortRide)
       \<noteq> Some shortRide
   \<and> snd (sync noFaults ''dan'' shortRide emptyStore)
       = snd (sync noFaults ''dan'' (shortRide\<lparr>Duration := 1000000000\<rparr>) emptyStore)
   \<and> unixNano (w_started_at (workoutRow ''dan'' (shortRide\<lparr>StartedAt := lmt_time\<rparr>)))
       \<noteq> unixNano lmt_time"
  by code_simp

end
